theory Spec2Isabelle
  imports Main "HOL-Library.AList" "HOL-Library.Sublist"
    "HOL-Library.Char_ord" "HOL-Library.List_Lexorder"
begin

section \<open>Values and processing records\<close>

text \<open>
  A processing record of \<^verbatim>\<open>bcbio/pipeline/variation.py\<close> is a Python dict from field
  names to values: path strings, \<^verbatim>\<open>None\<close>, lists (plot paths) and nested dicts
  (\<^verbatim>\<open>config\<close>, \<^verbatim>\<open>validate\<close>). A dict is an association list in insertion order;
  \<open>map_of\<close> reads it and \<open>AList.update\<close> writes it.
\<close>

datatype val = VNone | VStr string | VList "val list" | VDict "(string \<times> val) list"

type_synonym data = "(string \<times> val) list"

datatype error =
    ValueError string "val set"
  | KeyError string
  | IndexError
  | TypeError
  | AttributeError
  | OSError string

text \<open>Python truth value of a value (\<^verbatim>\<open>if x:\<close>).\<close>

fun truthy :: "val \<Rightarrow> bool" where
  "truthy VNone = False"
| "truthy (VStr s) = (s \<noteq> [])"
| "truthy (VList xs) = (xs \<noteq> [])"
| "truthy (VDict kvs) = (kvs \<noteq> [])"

text \<open>Only strings and \<^verbatim>\<open>None\<close> can be members of a Python set; adding a list or a
  dict raises \<^verbatim>\<open>TypeError\<close>.\<close>

fun hashable :: "val \<Rightarrow> bool" where
  "hashable VNone = True"
| "hashable (VStr s) = True"
| "hashable (VList xs) = False"
| "hashable (VDict kvs) = False"

text \<open>\<^verbatim>\<open>k in d\<close>, \<^verbatim>\<open>d.get(k)\<close> and \<^verbatim>\<open>d[k]\<close>.\<close>

definition has_key :: "data \<Rightarrow> string \<Rightarrow> bool" where
  "has_key d k = (map_of d k \<noteq> None)"

definition py_get :: "data \<Rightarrow> string \<Rightarrow> val" where
  "py_get d k = (case map_of d k of None \<Rightarrow> VNone | Some v \<Rightarrow> v)"

definition item :: "data \<Rightarrow> string \<Rightarrow> error + val" where
  "item d k = (case map_of d k of None \<Rightarrow> Inl (KeyError k) | Some v \<Rightarrow> Inr v)"

text \<open>The argument of \<^verbatim>\<open>postprocess_variants\<close> and \<^verbatim>\<open>_get_batch_representative\<close> is
  either one record (a dict) or a group (a list of records); the code tells them apart
  with \<^verbatim>\<open>isinstance(items, dict)\<close>.\<close>

datatype items = Single data | Group "data list"

section \<open>Representative selector: \<^verbatim>\<open>_get_batch_representative\<close>\<close>

text \<open>The loop of lines 155--158: \<open>vals\<close> is the set of values seen, \<open>out\<close> the
  records that define \<open>key\<close>, in order.\<close>

fun collect_batch :: "string \<Rightarrow> data list \<Rightarrow> val set \<Rightarrow> data list \<Rightarrow> error + (val set \<times> data list)" where
  "collect_batch key [] vals out = Inr (vals, out)"
| "collect_batch key (d # ds) vals out =
     (case map_of d key of
        None \<Rightarrow> collect_batch key ds vals out
      | Some v \<Rightarrow>
          if hashable v then collect_batch key ds (insert v vals) (out @ [d])
          else Inl TypeError)"

definition get_batch_representative :: "items \<Rightarrow> string \<Rightarrow> error + (data \<times> items)" where
  "get_batch_representative its key =
     (case its of
        Single d \<Rightarrow> Inr (d, Single d)
      | Group ds \<Rightarrow>
          (case collect_batch key ds {} [] of
             Inl e \<Rightarrow> Inl e
           | Inr (vals, out) \<Rightarrow>
               if card vals \<noteq> 1 then Inl (ValueError key vals)
               else (case out of
                       [] \<Rightarrow> Inl IndexError
                     | d # _ \<Rightarrow> Inr (d, Group ds))))"

text \<open>The distinct values of the shared field over the members that define it, and the
  members that define it, as the specification words them.\<close>

definition field_values :: "string \<Rightarrow> data list \<Rightarrow> val set" where
  "field_values key ds = set (List.map_filter (\<lambda>d. map_of d key) ds)"

definition defining_members :: "string \<Rightarrow> data list \<Rightarrow> data list" where
  "defining_members key ds = filter (\<lambda>d. has_key d key) ds"

definition well_shaped :: "string \<Rightarrow> data list \<Rightarrow> bool" where
  "well_shaped key ds = list_all hashable (List.map_filter (\<lambda>d. map_of d key) ds)"

section \<open>Library functions the code calls\<close>

subsection \<open>\<^verbatim>\<open>str.startswith\<close> and \<^verbatim>\<open>os.path\<close> (POSIX)\<close>

definition startswith :: "string \<Rightarrow> string \<Rightarrow> bool" where
  "startswith s p = prefix p s"

text \<open>\<^verbatim>\<open>os.path.join(a, b)\<close>: an absolute \<open>b\<close> replaces what came before; a separator
  is put in unless the path so far is empty or already ends in one.\<close>

definition join2 :: "string \<Rightarrow> string \<Rightarrow> string" where
  "join2 path b =
     (if startswith b ''/'' then b
      else if path = [] \<or> last path = CHR ''/'' then path @ b
      else path @ ''/'' @ b)"

definition path_join :: "string \<Rightarrow> string list \<Rightarrow> string" where
  "path_join a ps = foldl join2 a ps"

text \<open>\<^verbatim>\<open>os.path.basename\<close>: what follows the last separator.\<close>

definition basename :: "string \<Rightarrow> string" where
  "basename p = rev (takeWhile (\<lambda>c. c \<noteq> CHR ''/'') (rev p))"

text \<open>\<^verbatim>\<open>os.path.dirname\<close>: what precedes the last separator, without trailing
  separators unless it consists of separators only.\<close>

definition dirname :: "string \<Rightarrow> string" where
  "dirname p =
     (let head = rev (dropWhile (\<lambda>c. c \<noteq> CHR ''/'') (rev p)) in
      if head \<noteq> [] \<and> \<not> list_all (\<lambda>c. c = CHR ''/'') head
      then rev (dropWhile (\<lambda>c. c = CHR ''/'') (rev head))
      else head)"

subsection \<open>\<^verbatim>\<open>toolz.get_in\<close> and \<^verbatim>\<open>toolz.update_in\<close>\<close>

text \<open>\<^verbatim>\<open>get_in\<close> indexes step by step and turns the \<^verbatim>\<open>KeyError\<close> or \<^verbatim>\<open>TypeError\<close>
  of a failed step into the default. \<open>lookup_in\<close> is the indexing, \<open>None\<close> the
  failed step.\<close>

fun lookup_in :: "string list \<Rightarrow> val \<Rightarrow> val option" where
  "lookup_in [] v = Some v"
| "lookup_in (k # ks) (VDict d) =
     (case map_of d k of None \<Rightarrow> None | Some v \<Rightarrow> lookup_in ks v)"
| "lookup_in (k # ks) v = None"

definition get_in :: "string list \<Rightarrow> data \<Rightarrow> val \<Rightarrow> val" where
  "get_in ks d dflt = (case lookup_in ks (VDict d) of None \<Rightarrow> dflt | Some v \<Rightarrow> v)"

text \<open>\<^verbatim>\<open>update_in(d, keys, lambda x: v)\<close> returns a copy of \<open>d\<close> with \<open>v\<close> stored under
  the nested keys, creating the dicts that are missing on the way. A value on the way
  that is not a dict cannot be copied into one (\<^verbatim>\<open>TypeError\<close>), and an empty key
  sequence has no first key (\<^verbatim>\<open>IndexError\<close>).\<close>

fun update_in :: "data \<Rightarrow> string list \<Rightarrow> val \<Rightarrow> error + data" where
  "update_in d [] v = Inl IndexError"
| "update_in d [k] v = Inr (AList.update k v d)"
| "update_in d (k # k' # ks) v =
     (case (case map_of d k of
              None \<Rightarrow> Inr []
            | Some (VDict inner) \<Rightarrow> Inr inner
            | Some other \<Rightarrow> Inl TypeError) of
        Inl e \<Rightarrow> Inl e
      | Inr inner \<Rightarrow>
          (case update_in inner (k' # ks) v of
             Inl e \<Rightarrow> Inl e
           | Inr inner' \<Rightarrow> Inr (AList.update k (VDict inner') d)))"

section \<open>Collaborators and the world\<close>

text \<open>
  The accessors of \<^verbatim>\<open>bcbio.pipeline.datadict\<close>, the callers, annotators and file
  utilities are other modules of the pipeline. The code reaches them by name; here they
  are the fields of one record, arbitrary in every theorem. A collaborator is a
  function of its arguments and leaves them as they are. The work directory and the
  sample name are strings, a variant caller is a name or missing, and the batches of a
  record are a list of names, empty when it has none. \<open>creatable\<close> says of a path
  whether the file system lets it be made (permissions, space). Each invocation that
  acts on the file system or runs a transform stage is written to a log, in call order,
  before it is known whether it fails.
\<close>

datatype call =
    SafeMakedir string
  | SymlinkPlus string string
  | CopyPlus string string
  | BgzipAndIndex string val
  | AddToVcf val
  | FinalizeVcf val
  | VariantFiltration val
  | HandleVcfCalls val val
  | GermlineExtract
  | RunFilter val

record collab =
  dd_get_work_dir :: "data \<Rightarrow> string"
  dd_get_sample_name :: "data \<Rightarrow> string"
  dd_get_batches :: "data \<Rightarrow> string list"
  dd_get_variantcaller :: "data \<Rightarrow> string option"
  dd_get_align_bam :: "data \<Rightarrow> val"
  dd_get_ref_file :: "data \<Rightarrow> val"
  get_variantcaller :: "data \<Rightarrow> string option"
  to_single_data :: "data \<Rightarrow> data"
  unpack_tarballs :: "data \<Rightarrow> data \<Rightarrow> data"
  unpack_tarballs_list :: "data list \<Rightarrow> data \<Rightarrow> data list"
  add_to_vcf :: "val \<Rightarrow> data \<Rightarrow> val \<times> val"
  finalize_vcf :: "val \<Rightarrow> string option \<Rightarrow> data list \<Rightarrow> val"
  variant_filtration :: "val \<Rightarrow> val \<Rightarrow> val \<Rightarrow> data \<Rightarrow> data list \<Rightarrow> val"
  handle_vcf_calls :: "val \<Rightarrow> data \<Rightarrow> data list \<Rightarrow> val"
  germline_extract :: "data \<Rightarrow> data list \<Rightarrow> data"
  run_filter :: "val \<Rightarrow> val \<Rightarrow> val \<Rightarrow> data \<Rightarrow> data list \<Rightarrow> data"
  vmulti_get_orig_items :: "data \<Rightarrow> data list"
  realpath :: "string \<Rightarrow> string"
  samefile :: "string \<Rightarrow> string \<Rightarrow> bool option"
  creatable :: "string \<Rightarrow> bool"
  summarize_grading :: "data list \<Rightarrow> (string \<rightharpoonup> string) \<Rightarrow> data list \<times> (string \<rightharpoonup> string)"

text \<open>The world: the files that exist, by path, with their content as text, and the
  log of collaborator calls. A function with effects takes the world and returns its
  result or the exception raised, with the world as it left it.\<close>

record world =
  files :: "string \<rightharpoonup> string"
  calls :: "call list"

type_synonym 'a outcome = "(error + 'a) \<times> world"

definition log_call :: "call \<Rightarrow> world \<Rightarrow> world" where
  "log_call c w = w\<lparr>calls := calls w @ [c]\<rparr>"

text \<open>Modelled from the spec: \<^verbatim>\<open>utils.safe_makedir\<close> is not among the sources. It
  makes the directory if it is absent and returns its path; it fails when the directory
  cannot be created, and not because it is there already (sections 4.1 and 5).\<close>

definition safe_makedir :: "collab \<Rightarrow> string \<Rightarrow> world \<Rightarrow> string outcome" where
  "safe_makedir C dir w =
     (let w1 = log_call (SafeMakedir dir) w in
      if creatable C dir then (Inr dir, w1) else (Inl (OSError dir), w1))"

text \<open>Modelled from the spec: \<^verbatim>\<open>utils.symlink_plus\<close> is not among the sources. It
  links the target to the source, so that the target exists with the content of the
  source; it fails when the source path does not exist or the target cannot be created
  (section 4.1), and linking again what is linked already is no failure.\<close>

definition symlink_plus :: "collab \<Rightarrow> string \<Rightarrow> string \<Rightarrow> world \<Rightarrow> unit outcome" where
  "symlink_plus C orig new w =
     (let w1 = log_call (SymlinkPlus orig new) w in
      (case files w orig of
         None \<Rightarrow> (Inl (OSError orig), w1)
       | Some content \<Rightarrow>
           if creatable C new then (Inr (), w1\<lparr>files := (files w1)(new \<mapsto> content)\<rparr>)
           else (Inl (OSError new), w1)))"

section \<open>Workspace stager: \<^verbatim>\<open>_symlink_to_workdir\<close>\<close>

text \<open>Lines 135--138: the caller's name, \<^verbatim>\<open>"precalled"\<close> when there is none, and
  the path of the link inside the work directory.\<close>

definition target_path :: "collab \<Rightarrow> data \<Rightarrow> string \<Rightarrow> string" where
  "target_path C d orig_file =
     (let variantcaller =
            (case get_variantcaller C d of
               None \<Rightarrow> ''precalled''
             | Some c \<Rightarrow> if c = [] then ''precalled'' else c)
      in path_join (dd_get_work_dir C d) [variantcaller, basename orig_file])"

definition symlink_to_workdir :: "collab \<Rightarrow> data \<Rightarrow> string list \<Rightarrow> world \<Rightarrow> data outcome" where
  "symlink_to_workdir C d key w =
     (let orig_file = get_in key d VNone in
      if \<not> truthy orig_file then (Inr d, w)
      else
        (case orig_file of
           VStr p \<Rightarrow>
             if startswith p (dd_get_work_dir C d) then (Inr d, w)
             else
               (let out_file = target_path C d p in
                (case safe_makedir C (dirname out_file) w of
                   (Inl e, w1) \<Rightarrow> (Inl e, w1)
                 | (Inr made, w1) \<Rightarrow>
                     (case symlink_plus C p out_file w1 of
                        (Inl e, w2) \<Rightarrow> (Inl e, w2)
                      | (Inr linked, w2) \<Rightarrow> (update_in d key (VStr out_file), w2))))
         | other \<Rightarrow> (Inl AttributeError, w)))"

section \<open>Cross-batch report merger: \<^verbatim>\<open>_combine_validations\<close>\<close>

text \<open>Lines 53--57. A record's \<^verbatim>\<open>validate\<close> entry, when it is there and true, is a dict;
  its \<^verbatim>\<open>grading_summary\<close> is the path of a report and its \<^verbatim>\<open>grading_plots\<close> a list
  of plot paths. \<open>csvs\<close> and \<open>pngs\<close> are Python sets of strings. \<^verbatim>\<open>set(x)\<close> of a string is
  the set of its characters and of a dict the set of its keys; a plot list with an
  entry that is not a string is outside the data model and is reported as
  \<^verbatim>\<open>TypeError\<close>.\<close>

fun str_items :: "val list \<Rightarrow> error + string list" where
  "str_items [] = Inr []"
| "str_items (VStr s # xs) = (case str_items xs of Inl e \<Rightarrow> Inl e | Inr ss \<Rightarrow> Inr (s # ss))"
| "str_items (other # xs) = Inl TypeError"

fun plot_paths :: "val \<Rightarrow> error + string set" where
  "plot_paths (VList xs) = (case str_items xs of Inl e \<Rightarrow> Inl e | Inr ss \<Rightarrow> Inr (set ss))"
| "plot_paths (VStr s) = Inr (set (map (\<lambda>c. [c]) s))"
| "plot_paths (VDict kvs) = Inr (set (map fst kvs))"
| "plot_paths VNone = Inl TypeError"

definition add_summary :: "val \<Rightarrow> string set \<Rightarrow> error + string set" where
  "add_summary gs csvs =
     (if truthy gs then (case gs of VStr s \<Rightarrow> Inr (insert s csvs) | other \<Rightarrow> Inl TypeError)
      else Inr csvs)"

definition add_plots :: "val \<Rightarrow> string set \<Rightarrow> error + string set" where
  "add_plots gp pngs =
     (if truthy gp then (case plot_paths gp of Inl e \<Rightarrow> Inl e | Inr ps \<Rightarrow> Inr (pngs \<union> ps))
      else Inr pngs)"

fun collect_validations :: "data list \<Rightarrow> string set \<Rightarrow> string set \<Rightarrow> error + (string set \<times> string set)" where
  "collect_validations [] csvs pngs = Inr (csvs, pngs)"
| "collect_validations (x # xs) csvs pngs =
     (if \<not> truthy (py_get x ''validate'') then collect_validations xs csvs pngs
      else
        (case py_get x ''validate'' of
           VDict v \<Rightarrow>
             (case add_summary (py_get v ''grading_summary'') csvs of
                Inl e \<Rightarrow> Inl e
              | Inr csvs' \<Rightarrow>
                  (case add_plots (py_get v ''grading_plots'') pngs of
                     Inl e \<Rightarrow> Inl e
                   | Inr pngs' \<Rightarrow> collect_validations xs csvs' pngs'))
         | other \<Rightarrow> Inl AttributeError))"

text \<open>A text file is its content, a string; a line ends with the newline character and
  keeps it, and the last line may lack it. \<open>file_lines\<close> are the lines a file handle
  yields: \<^verbatim>\<open>readline()\<close> returns the first (the empty string at the end of the file),
  iterating over the handle the rest.\<close>

definition newline :: char where
  "newline = CHR 0x0A"

fun file_lines :: "string \<Rightarrow> string list" where
  "file_lines [] = []"
| "file_lines (c # cs) =
     (if c = newline then [c] # file_lines cs
      else (case file_lines cs of [] \<Rightarrow> [[c]] | l # ls \<Rightarrow> (c # l) # ls))"

text \<open>Lines 66--70 for the report at position \<open>i\<close> of the sorted list: \<open>buf\<close> is what
  has been written to the output handle so far.\<close>

definition merge_one :: "nat \<Rightarrow> string \<Rightarrow> string \<Rightarrow> string" where
  "merge_one i content buf =
     (let ls = file_lines content;
          h = (case ls of [] \<Rightarrow> [] | l # rest \<Rightarrow> l);
          buf1 = (if i = 0 then buf @ h else buf)
      in foldl (@) buf1 (tl ls))"

text \<open>Lines 64--65: a report that cannot be opened raises, and the output handle is
  closed with what was written before.\<close>

fun merge_loop :: "(string \<rightharpoonup> string) \<Rightarrow> nat \<Rightarrow> string list \<Rightarrow> string \<Rightarrow> error option \<times> string" where
  "merge_loop fs i [] buf = (None, buf)"
| "merge_loop fs i (csv # rest) buf =
     (case fs csv of
        None \<Rightarrow> (Some (OSError csv), buf)
      | Some content \<Rightarrow> merge_loop fs (Suc i) rest (merge_one i content buf))"

definition validation_summary :: "string set \<Rightarrow> string \<Rightarrow> data" where
  "validation_summary pngs grading_summary =
     [(''grading_plots'', VList (map VStr (sorted_list_of_set pngs))),
      (''grading_summary'', VStr grading_summary)]"

text \<open>Opening the combined file for writing empties it at once; what is written reaches
  it when the handle is closed at the end of the \<^verbatim>\<open>with\<close> block.\<close>

definition combine_validations :: "collab \<Rightarrow> data list \<Rightarrow> world \<Rightarrow> data outcome" where
  "combine_validations C its w =
     (case collect_validations its {} {} of
        Inl e \<Rightarrow> (Inl e, w)
      | Inr (csvs, pngs) \<Rightarrow>
          if card csvs = 1 then (Inr (validation_summary pngs (the_elem csvs)), w)
          else
            (case its of
               [] \<Rightarrow> (Inl IndexError, w)
             | x # xs \<Rightarrow>
                 (case safe_makedir C (path_join (dd_get_work_dir C x) [''validation'']) w of
                    (Inl e, w1) \<Rightarrow> (Inl e, w1)
                  | (Inr dir, w1) \<Rightarrow>
                      (let grading_summary = path_join dir [''grading-summary-combined.csv''];
                           fs1 = (files w1)(grading_summary \<mapsto> []);
                           (err, buf) = merge_loop fs1 0 (sorted_list_of_set csvs) [];
                           w2 = w1\<lparr>files := fs1(grading_summary \<mapsto> buf)\<rparr>
                       in (case err of
                             Some e \<Rightarrow> (Inl e, w2)
                           | None \<Rightarrow> (Inr (validation_summary pngs grading_summary), w2))))))"

section \<open>Output deduplicator: \<^verbatim>\<open>summarize_vc\<close>\<close>

datatype out_kind = Calls | Gvcf

fun out_key :: "out_kind \<Rightarrow> string" where
  "out_key Calls = ''calls''"
| "out_key Gvcf = ''gvcf''"

text \<open>The state of the loop of lines 22--45: the set \<open>added\<close> and the two lists of
  \<^verbatim>\<open>out["variants"]\<close>.\<close>

record manifest =
  added :: "string set"
  out_calls :: "string list"
  out_gvcf :: "string list"

definition append_out :: "out_kind \<Rightarrow> string \<Rightarrow> manifest \<Rightarrow> manifest" where
  "append_out kind out_file m =
     (case kind of
        Calls \<Rightarrow> m\<lparr>out_calls := out_calls m @ [out_file]\<rparr>
      | Gvcf \<Rightarrow> m\<lparr>out_gvcf := out_gvcf m @ [out_file]\<rparr>)"

text \<open>Lines 25--33: the outputs of one record, as (field, output kind, name).\<close>

definition to_add :: "collab \<Rightarrow> data \<Rightarrow> (string \<times> out_kind \<times> string) list" where
  "to_add C d =
     (let batch_name = (case dd_get_batches C d of
                          [] \<Rightarrow> dd_get_sample_name C d
                        | b # bs \<Rightarrow> b)
      in if py_get d ''vrn_file_joint'' \<noteq> VNone
         then [(''vrn_file'', Gvcf, dd_get_sample_name C d),
               (''vrn_file_joint'', Calls, batch_name)]
         else [(''vrn_file'', Calls, batch_name)])"

text \<open>Line 35: \<^verbatim>\<open>"%s-%s" % (name, dd.get_variantcaller(data))\<close>; a missing caller is
  printed as \<^verbatim>\<open>None\<close>.\<close>

definition cur_name_of :: "collab \<Rightarrow> data \<Rightarrow> string \<Rightarrow> string" where
  "cur_name_of C d name =
     name @ ''-'' @ (case dd_get_variantcaller C d of None \<Rightarrow> ''None'' | Some c \<Rightarrow> c)"

text \<open>Lines 37--39: the directory and the path of an output file.\<close>

definition out_dir_of :: "collab \<Rightarrow> data \<Rightarrow> out_kind \<Rightarrow> string" where
  "out_dir_of C d kind = path_join (dd_get_work_dir C d) [''variants'', out_key kind]"

definition out_file_of :: "collab \<Rightarrow> data \<Rightarrow> out_kind \<Rightarrow> string \<Rightarrow> string" where
  "out_file_of C d kind name =
     path_join (out_dir_of C d kind) [cur_name_of C d name @ ''.vcf.gz'']"

text \<open>Lines 35--45, the body of the inner loop. \<^verbatim>\<open>os.path.realpath\<close> needs a string.
  \<^verbatim>\<open>copy_plus\<close> and \<^verbatim>\<open>bgzip_and_index\<close> are calls in the log; nothing is known of
  when they fail, and the claims on this loop are about the runs that return.\<close>

definition add_output :: "collab \<Rightarrow> data \<Rightarrow> string \<times> out_kind \<times> string \<Rightarrow> manifest \<Rightarrow> world \<Rightarrow> manifest outcome" where
  "add_output C d e m w =
     (case e of (vrn_key, kind, name) \<Rightarrow>
        (let cur_name = cur_name_of C d name in
         if cur_name \<in> added m then (Inr m, w)
         else
           (case safe_makedir C (out_dir_of C d kind) w of
              (Inl err, w1) \<Rightarrow> (Inl err, w1)
            | (Inr dir, w1) \<Rightarrow>
                (let out_file = path_join dir [cur_name @ ''.vcf.gz''];
                     m1 = m\<lparr>added := insert cur_name (added m)\<rparr>
                 in (case item d vrn_key of
                       Inl err \<Rightarrow> (Inl err, w1)
                     | Inr (VStr p) \<Rightarrow>
                         (let w2 = log_call (CopyPlus (realpath C p) out_file) w1 in
                          (case item d ''config'' of
                             Inl err \<Rightarrow> (Inl err, w2)
                           | Inr cfg \<Rightarrow>
                               (Inr (append_out kind out_file m1),
                                log_call (BgzipAndIndex out_file cfg) w2)))
                     | Inr other \<Rightarrow> (Inl TypeError, w1))))))"

fun add_outputs :: "collab \<Rightarrow> data \<Rightarrow> (string \<times> out_kind \<times> string) list \<Rightarrow> manifest \<Rightarrow> world \<Rightarrow> manifest outcome" where
  "add_outputs C d [] m w = (Inr m, w)"
| "add_outputs C d (e # es) m w =
     (case add_output C d e m w of
        (Inl err, w') \<Rightarrow> (Inl err, w')
      | (Inr m', w') \<Rightarrow> add_outputs C d es m' w')"

fun summarize_loop :: "collab \<Rightarrow> data list \<Rightarrow> manifest \<Rightarrow> world \<Rightarrow> manifest outcome" where
  "summarize_loop C [] m w = (Inr m, w)"
| "summarize_loop C (d # ds) m w =
     (if truthy (py_get d ''vrn_file'') then
        (case add_outputs C d (to_add C d) m w of
           (Inl err, w') \<Rightarrow> (Inl err, w')
         | (Inr m', w') \<Rightarrow> summarize_loop C ds m' w')
      else summarize_loop C ds m w)"

definition empty_manifest :: manifest where
  "empty_manifest = \<lparr>added = {}, out_calls = [], out_gvcf = []\<rparr>"

definition manifest_value :: "data \<Rightarrow> manifest \<Rightarrow> data" where
  "manifest_value validate m =
     [(''validate'', VDict validate),
      (''variants'', VDict [(''calls'', VList (map VStr (out_calls m))),
                            (''gvcf'', VList (map VStr (out_gvcf m)))])]"

definition summarize_vc :: "collab \<Rightarrow> data list \<Rightarrow> world \<Rightarrow> data list outcome" where
  "summarize_vc C its w =
     (case summarize_grading C its (files w) of (graded, fs) \<Rightarrow>
        (let its1 = map (to_single_data C) graded in
         (case combine_validations C its1 (w\<lparr>files := fs\<rparr>) of
            (Inl e, w1) \<Rightarrow> (Inl e, w1)
          | (Inr validate, w1) \<Rightarrow>
              (case summarize_loop C its1 empty_manifest w1 of
                 (Inl e, w2) \<Rightarrow> (Inl e, w2)
               | (Inr m, w2) \<Rightarrow> (Inr [manifest_value validate m], w2)))))"

section \<open>Transform pipeline: \<^verbatim>\<open>postprocess_variants\<close>\<close>

definition get_orig_items :: "collab \<Rightarrow> items \<Rightarrow> data list" where
  "get_orig_items C its =
     (case its of
        Single d \<Rightarrow>
          if truthy (dd_get_align_bam C d) \<and> truthy (get_in [''metadata'', ''batch''] d VNone)
          then vmulti_get_orig_items C d
          else [d]
      | Group ds \<Rightarrow> ds)"

text \<open>Lines 78--85: the field that holds the call file, the representative and the
  group, both after \<^verbatim>\<open>unpack_tarballs\<close>. \<^verbatim>\<open>items[0]\<close> of an empty list raises.\<close>

definition prepare :: "collab \<Rightarrow> items \<Rightarrow> error + (string \<times> data \<times> items)" where
  "prepare C its =
     (case (case its of
              Single d \<Rightarrow> Inr (''vrn_file'', Single d)
            | Group xs \<Rightarrow>
                (case map (to_single_data C) xs of
                   [] \<Rightarrow> Inl IndexError
                 | d # ds \<Rightarrow>
                     Inr (if has_key d ''vrn_file_joint'' then ''vrn_file_joint'' else ''vrn_file'',
                          Group (d # ds)))) of
        Inl e \<Rightarrow> Inl e
      | Inr (vrn_key, its1) \<Rightarrow>
          (case get_batch_representative its1 vrn_key of
             Inl e \<Rightarrow> Inl e
           | Inr (d, its2) \<Rightarrow>
               Inr (vrn_key,
                    unpack_tarballs C d d,
                    (case its2 of
                       Single x \<Rightarrow> Single (unpack_tarballs C x d)
                     | Group xs \<Rightarrow> Group (unpack_tarballs_list C xs d)))))"

text \<open>Lines 91--114, stage by stage. The code assigns into the record in place
  (\<^verbatim>\<open>data[k] = v\<close>), and the record can be the very object that the group holds:
  \<^verbatim>\<open>_get_batch_representative\<close> hands out a member of the group (or the single record
  as its own group), and staging leaves the object alone unless it rewrites a field
  (\<^verbatim>\<open>update_in\<close> returns a copy). \<^verbatim>\<open>to_single_data\<close> and \<^verbatim>\<open>unpack_tarballs\<close> are taken
  to hand back the records they are given, as bcbio's do. \<open>shared_at\<close> is the position of
  the record in the group while the two are one object, and \<open>None\<close> otherwise: a
  collaborator that is handed the group sees, in that position, the record as it is at
  that moment. A record that a collaborator returns is a new object. Where the code
  reads \<^verbatim>\<open>data[vrn_key]\<close> right after testing or assigning that field, the key is
  there and \<open>py_get\<close> reads it; after \<^verbatim>\<open>germline.extract\<close> has returned a record of
  its own making, the read can raise \<^verbatim>\<open>KeyError\<close>.\<close>

definition seen_items :: "data list \<Rightarrow> nat option \<Rightarrow> data \<Rightarrow> data list" where
  "seen_items orig_items shared_at d =
     (case shared_at of None \<Rightarrow> orig_items | Some i \<Rightarrow> orig_items[i := d])"

definition held_items :: "items \<Rightarrow> nat option \<Rightarrow> data \<Rightarrow> items" where
  "held_items its shared_at d =
     (case shared_at of
        None \<Rightarrow> its
      | Some i \<Rightarrow> (case its of Single x \<Rightarrow> Single d | Group xs \<Rightarrow> Group (xs[i := d])))"

text \<open>The position of the record in the list that \<^verbatim>\<open>_get_orig_items\<close> returns: the
  list \<^verbatim>\<open>[data]\<close> and the group itself hold the record where it was; the list that
  \<^verbatim>\<open>vmulti.get_orig_items\<close> makes is its own.\<close>

definition orig_alias :: "collab \<Rightarrow> items \<Rightarrow> nat option \<Rightarrow> nat option" where
  "orig_alias C its shared_at =
     (case its of
        Single d \<Rightarrow>
          if truthy (dd_get_align_bam C d) \<and> truthy (get_in [''metadata'', ''batch''] d VNone)
          then None
          else shared_at
      | Group ds \<Rightarrow> shared_at)"

text \<open>Lines 92--97: effect annotation.\<close>

definition add_effects :: "collab \<Rightarrow> string \<Rightarrow> data \<Rightarrow> world \<Rightarrow> data \<times> world" where
  "add_effects C vrn_key d w =
     (case add_to_vcf C (py_get d vrn_key) d of (ann_vrn_file, vrn_stats) \<Rightarrow>
        (let d1 = (if truthy ann_vrn_file then AList.update vrn_key ann_vrn_file d else d);
             d2 = (if truthy vrn_stats then AList.update ''vrn_stats'' vrn_stats d1 else d1)
         in (d2, log_call (AddToVcf (py_get d vrn_key)) w)))"

text \<open>Lines 99--104: annotation finalize, then filtration.\<close>

definition finalize_and_filter :: "collab \<Rightarrow> string \<Rightarrow> data \<Rightarrow> data list \<Rightarrow> nat option \<Rightarrow> world \<Rightarrow> data \<times> world" where
  "finalize_and_filter C vrn_key d orig_items shared_at w =
     (let w1 = log_call (FinalizeVcf (py_get d vrn_key)) w;
          d1 = AList.update vrn_key
                 (finalize_vcf C (py_get d vrn_key) (get_variantcaller C d)
                    (seen_items orig_items shared_at d)) d;
          w2 = log_call (VariantFiltration (py_get d1 vrn_key)) w1;
          d2 = AList.update vrn_key
                 (variant_filtration C (py_get d1 vrn_key) (dd_get_ref_file C d1)
                    (get_in [''genome_resources'', ''variation''] d1 (VDict [])) d1
                    (seen_items orig_items shared_at d1)) d1
      in (d2, w2))"

text \<open>Lines 105--110: prioritization, and germline extraction when the file it returns
  differs from the one it was given. The result is the record, the group as the next
  stage will see it, and the world.\<close>

definition prioritize_and_extract :: "collab \<Rightarrow> string \<Rightarrow> data \<Rightarrow> data list \<Rightarrow> nat option \<Rightarrow> world \<Rightarrow> data \<times> data list \<times> world" where
  "prioritize_and_extract C vrn_key d orig_items shared_at w =
     (let prio_vrn_file = handle_vcf_calls C (py_get d vrn_key) d (seen_items orig_items shared_at d);
          w1 = log_call (HandleVcfCalls (py_get d vrn_key) prio_vrn_file) w
      in if prio_vrn_file \<noteq> py_get d vrn_key
         then (let d1 = AList.update vrn_key prio_vrn_file d in
               (germline_extract C d1 (seen_items orig_items shared_at d1),
                seen_items orig_items shared_at d1,
                log_call GermlineExtract w1))
         else (d, seen_items orig_items shared_at d, w1))"

text \<open>Lines 112--114: damage filtering when there is an alignment file.\<close>

definition damage_filter :: "collab \<Rightarrow> string \<Rightarrow> data \<Rightarrow> data list \<Rightarrow> world \<Rightarrow> data outcome" where
  "damage_filter C vrn_key d orig_items w =
     (if truthy (dd_get_align_bam C d) then
        (case item d vrn_key of
           Inl e \<Rightarrow> (Inl e, w)
         | Inr f \<Rightarrow>
             (Inr (run_filter C f (dd_get_align_bam C d) (dd_get_ref_file C d) d orig_items),
              log_call (RunFilter f) w))
      else (Inr d, w))"

definition run_stages :: "collab \<Rightarrow> string \<Rightarrow> data \<Rightarrow> items \<Rightarrow> nat option \<Rightarrow> world \<Rightarrow> data outcome" where
  "run_stages C vrn_key d its shared_at w =
     (if truthy (py_get d vrn_key) then
        (case add_effects C vrn_key d w of (d1, w1) \<Rightarrow>
           (let orig_items = get_orig_items C (held_items its shared_at d1);
                orig_at = orig_alias C (held_items its shared_at d1) shared_at
            in (case finalize_and_filter C vrn_key d1 orig_items orig_at w1 of (d2, w2) \<Rightarrow>
                  (case prioritize_and_extract C vrn_key d2 orig_items orig_at w2 of
                     (d3, seen, w3) \<Rightarrow> damage_filter C vrn_key d3 seen w3))))
      else (Inr d, w))"

text \<open>Lines 115--117. \<^verbatim>\<open>os.path.samefile\<close> needs two strings and raises when a file
  is missing (\<open>samefile\<close> gives \<open>None\<close>).\<close>

definition restore :: "collab \<Rightarrow> string \<Rightarrow> val \<Rightarrow> data \<Rightarrow> world \<Rightarrow> data list list outcome" where
  "restore C vrn_key orig_vrn_file d w =
     (if truthy orig_vrn_file then
        (case item d vrn_key of
           Inl e \<Rightarrow> (Inl e, w)
         | Inr cur \<Rightarrow>
             (case (cur, orig_vrn_file) of
                (VStr p, VStr q) \<Rightarrow>
                  (case samefile C p q of
                     None \<Rightarrow> (Inl (OSError p), w)
                   | Some same \<Rightarrow>
                       if same then (Inr [[AList.update vrn_key orig_vrn_file d]], w)
                       else (Inr [[d]], w))
              | other \<Rightarrow> (Inl TypeError, w)))
      else (Inr [[d]], w))"

text \<open>Line 134: whether staging rewrites the field, and so copies the record.\<close>

definition needs_staging :: "collab \<Rightarrow> data \<Rightarrow> string list \<Rightarrow> bool" where
  "needs_staging C d key =
     (case get_in key d VNone of
        VStr p \<Rightarrow> p \<noteq> [] \<and> \<not> startswith p (dd_get_work_dir C d)
      | other \<Rightarrow> False)"

text \<open>The position of the representative in its group: the single record is its own
  group, and the representative of a list is its first member that has the field.\<close>

definition rep_alias :: "collab \<Rightarrow> items \<Rightarrow> string \<Rightarrow> nat option" where
  "rep_alias C its vrn_key =
     (case its of
        Single d \<Rightarrow> Some 0
      | Group xs \<Rightarrow>
          Some (length (takeWhile (\<lambda>x. \<not> has_key x vrn_key) (map (to_single_data C) xs))))"

text \<open>Lines 78--114: everything before the last test. The group holds the
  representative as it was before staging; the two stay one object when staging
  rewrites nothing. The result is the field name, the call file read at line 88
  (\<^verbatim>\<open>orig_vrn_file\<close>) and the record after the stages.\<close>

definition run_pipeline :: "collab \<Rightarrow> items \<Rightarrow> world \<Rightarrow> (string \<times> val \<times> data) outcome" where
  "run_pipeline C its w =
     (case prepare C its of
        Inl e \<Rightarrow> (Inl e, w)
      | Inr (vrn_key, d0, its0) \<Rightarrow>
          (case symlink_to_workdir C d0 [vrn_key] w of
             (Inl e, w1) \<Rightarrow> (Inl e, w1)
           | (Inr d1, w1) \<Rightarrow>
               (case symlink_to_workdir C d1 [''config'', ''algorithm'', ''variant_regions''] w1 of
                  (Inl e, w2) \<Rightarrow> (Inl e, w2)
                | (Inr d2, w2) \<Rightarrow>
                    (let shared_at =
                           (if needs_staging C d0 [vrn_key]
                               \<or> needs_staging C d1 [''config'', ''algorithm'', ''variant_regions'']
                            then None
                            else rep_alias C its vrn_key)
                     in (case run_stages C vrn_key d2
                                (held_items its0 (rep_alias C its vrn_key) d0) shared_at w2 of
                           (Inl e, w3) \<Rightarrow> (Inl e, w3)
                         | (Inr d3, w3) \<Rightarrow> (Inr (vrn_key, py_get d0 vrn_key, d3), w3))))))"

definition postprocess_variants :: "collab \<Rightarrow> items \<Rightarrow> world \<Rightarrow> data list list outcome" where
  "postprocess_variants C its w =
     (case run_pipeline C its w of
        (Inl e, w') \<Rightarrow> (Inl e, w')
      | (Inr (vrn_key, orig_vrn_file, d), w') \<Rightarrow> restore C vrn_key orig_vrn_file d w')"

section \<open>Words of the claims\<close>

definition path_of :: "val \<Rightarrow> string" where
  "path_of v = (case v of VStr s \<Rightarrow> s | other \<Rightarrow> [])"

text \<open>The logical key of an output, the collaborator calls that one emitted output
  makes, and the calls that write an output file.\<close>

definition job_key :: "collab \<Rightarrow> data \<times> string \<times> out_kind \<times> string \<Rightarrow> string \<times> string option" where
  "job_key C j = (case j of (d, vrn_key, kind, name) \<Rightarrow> (name, dd_get_variantcaller C d))"

definition job_file :: "collab \<Rightarrow> data \<times> string \<times> out_kind \<times> string \<Rightarrow> string" where
  "job_file C j = (case j of (d, vrn_key, kind, name) \<Rightarrow> out_file_of C d kind name)"

definition job_kind :: "data \<times> string \<times> out_kind \<times> string \<Rightarrow> out_kind" where
  "job_kind j = (case j of (d, vrn_key, kind, name) \<Rightarrow> kind)"

definition job_name :: "collab \<Rightarrow> data \<times> string \<times> out_kind \<times> string \<Rightarrow> string" where
  "job_name C j = (case j of (d, vrn_key, kind, name) \<Rightarrow> cur_name_of C d name)"

definition job_copy :: "collab \<Rightarrow> data \<times> string \<times> out_kind \<times> string \<Rightarrow> call" where
  "job_copy C j =
     (case j of (d, vrn_key, kind, name) \<Rightarrow>
        CopyPlus (realpath C (path_of (py_get d vrn_key))) (out_file_of C d kind name))"

definition job_calls :: "collab \<Rightarrow> data \<times> string \<times> out_kind \<times> string \<Rightarrow> call list" where
  "job_calls C j =
     (case j of (d, vrn_key, kind, name) \<Rightarrow>
        [SafeMakedir (out_dir_of C d kind),
         job_copy C j,
         BgzipAndIndex (out_file_of C d kind name) (py_get d ''config'')])"

fun is_copy :: "call \<Rightarrow> bool" where
  "is_copy (CopyPlus a b) = True"
| "is_copy c = False"

definition outputs :: "collab \<Rightarrow> out_kind \<Rightarrow> (data \<times> string \<times> out_kind \<times> string) list \<Rightarrow> string list" where
  "outputs C kind js = map (job_file C) (filter (\<lambda>j. job_kind j = kind) js)"

text \<open>\<open>emits C js m w m' w'\<close>: from manifest \<open>m\<close> and world \<open>w\<close>, exactly the outputs
  \<open>js\<close> were emitted, in this order, none of them named in \<open>added m\<close> and no two of
  them under one name.\<close>

definition emits :: "collab \<Rightarrow> (data \<times> string \<times> out_kind \<times> string) list \<Rightarrow> manifest \<Rightarrow> world \<Rightarrow> manifest \<Rightarrow> world \<Rightarrow> bool" where
  "emits C js m w m' w' \<longleftrightarrow>
     distinct (map (job_name C) js)
   \<and> job_name C ` set js \<inter> added m = {}
   \<and> m' = \<lparr>added = added m \<union> job_name C ` set js,
            out_calls = out_calls m @ outputs C Calls js,
            out_gvcf = out_gvcf m @ outputs C Gvcf js\<rparr>
   \<and> w' = w\<lparr>calls := calls w @ concat (map (job_calls C) js)\<rparr>"

text \<open>The first line of a report and what follows it.\<close>

definition header_of :: "string \<Rightarrow> string" where
  "header_of content = (case file_lines content of [] \<Rightarrow> [] | l # rest \<Rightarrow> l)"

definition body_of :: "string \<Rightarrow> string" where
  "body_of content = concat (tl (file_lines content))"

text \<open>The report path that a record carries, if any, and the distinct report paths of
  a list of records.\<close>

definition report_of :: "data \<Rightarrow> string option" where
  "report_of x =
     (case py_get x ''validate'' of
        VDict v \<Rightarrow>
          (case py_get v ''grading_summary'' of
             VStr s \<Rightarrow> if v \<noteq> [] \<and> s \<noteq> [] then Some s else None
           | other \<Rightarrow> None)
      | other \<Rightarrow> None)"

definition report_paths :: "data list \<Rightarrow> string set" where
  "report_paths its = set (List.map_filter report_of its)"

text \<open>The path of the combined report for the group whose first record is \<open>x\<close>, and the
  text merged from the given report contents: the first line of the first, then what
  follows the first line in each, in order.\<close>

definition combined_path :: "collab \<Rightarrow> data \<Rightarrow> string" where
  "combined_path C x =
     path_join (path_join (dd_get_work_dir C x) [''validation''])
       [''grading-summary-combined.csv'']"

definition merged_text :: "string list \<Rightarrow> string" where
  "merged_text contents =
     (case contents of [] \<Rightarrow> [] | c # cs \<Rightarrow> header_of c) @ concat (map body_of contents)"

text \<open>A path lies under a directory when it continues the directory's path after a
  separator.\<close>

definition lies_under :: "string \<Rightarrow> string \<Rightarrow> bool" where
  "lies_under p dir =
     prefix (if dir \<noteq> [] \<and> last dir = CHR ''/'' then dir else dir @ ''/'') p"



section \<open>Example collaborators\<close>

text \<open>One concrete set of collaborators, for running the definitions on examples: the
  accessors read the fields where bcbio keeps them, annotation, finalisation and
  filtration leave the call file as it is, and prioritisation writes a new file exactly
  when the record asks for it under \<^verbatim>\<open>prioritize\<close>.\<close>

definition name_of :: "val \<Rightarrow> string option" where
  "name_of v = (case v of VStr s \<Rightarrow> Some s | other \<Rightarrow> None)"

definition batches_of :: "val \<Rightarrow> string list" where
  "batches_of v = (case v of VStr s \<Rightarrow> [s] | VList xs \<Rightarrow> map path_of xs | other \<Rightarrow> [])"

definition example_collab :: collab where
  "example_collab = \<lparr>
     dd_get_work_dir = (\<lambda>d. path_of (get_in [''dirs'', ''work''] d VNone)),
     dd_get_sample_name = (\<lambda>d. path_of (get_in [''rgnames'', ''sample''] d VNone)),
     dd_get_batches = (\<lambda>d. batches_of (get_in [''metadata'', ''batch''] d VNone)),
     dd_get_variantcaller = (\<lambda>d. name_of (get_in [''config'', ''algorithm'', ''variantcaller''] d VNone)),
     dd_get_align_bam = (\<lambda>d. get_in [''align_bam''] d VNone),
     dd_get_ref_file = (\<lambda>d. get_in [''reference'', ''fasta'', ''base''] d VNone),
     get_variantcaller = (\<lambda>d. name_of (get_in [''config'', ''algorithm'', ''variantcaller''] d VNone)),
     to_single_data = (\<lambda>d. d),
     unpack_tarballs = (\<lambda>xs d. xs),
     unpack_tarballs_list = (\<lambda>xs d. xs),
     add_to_vcf = (\<lambda>f d. (VNone, VNone)),
     finalize_vcf = (\<lambda>f c orig. f),
     variant_filtration = (\<lambda>f r v d orig. f),
     handle_vcf_calls = (\<lambda>f d orig. if truthy (py_get d ''prioritize'') then VStr (path_of f @ ''.prio'') else f),
     germline_extract = (\<lambda>d orig. d),
     run_filter = (\<lambda>f b r d orig. d),
     vmulti_get_orig_items = (\<lambda>d. [d]),
     realpath = (\<lambda>p. p),
     samefile = (\<lambda>p q. Some (basename p = basename q)),
     creatable = (\<lambda>p. True),
     summarize_grading = (\<lambda>xs fs. (xs, fs))
   \<rparr>"

definition example_record :: data where
  "example_record =
     [(''vrn_file'', VStr ''/in/x.vcf''),
      (''dirs'', VDict [(''work'', VStr ''/w'')]),
      (''config'', VDict [(''algorithm'', VDict [(''variantcaller'', VStr ''gatk'')])]),
      (''rgnames'', VDict [(''sample'', VStr ''s1'')])]"

definition staged_record :: data where
  "staged_record = AList.update ''vrn_file'' (VStr ''/w/gatk/x.vcf'') example_record"

text \<open>A sample record by name, caller and batch, and two samples of one batch with a
  joint call file.\<close>

definition sample_record :: "string \<Rightarrow> string \<Rightarrow> val \<Rightarrow> (string \<times> val) list \<Rightarrow> data" where
  "sample_record sample caller batch extra =
     [(''vrn_file'', VStr (''/in/'' @ sample @ ''.vcf'')),
      (''dirs'', VDict [(''work'', VStr ''/w'')]),
      (''config'', VDict [(''algorithm'', VDict [(''variantcaller'', VStr caller)])]),
      (''rgnames'', VDict [(''sample'', VStr sample)]),
      (''metadata'', VDict [(''batch'', batch)])] @ extra"

definition batch_records :: "data list" where
  "batch_records =
     [sample_record ''s1'' ''gatk'' (VStr ''b1'') [(''vrn_file_joint'', VStr ''/in/b1.vcf'')],
      sample_record ''s2'' ''gatk'' (VStr ''b1'') [(''vrn_file_joint'', VStr ''/in/b1.vcf'')]]"

text \<open>Two reports with the same header, and two records that refer to them.\<close>

definition report_files :: "string \<rightharpoonup> string" where
  "report_files =
     [''/v/r1.csv'' \<mapsto> ''h'' @ [newline] @ ''a'' @ [newline],
      ''/v/r2.csv'' \<mapsto> ''h'' @ [newline] @ ''b'' @ [newline]]"

definition validated_records :: "data list" where
  "validated_records =
     [sample_record ''s1'' ''gatk'' VNone
        [(''validate'', VDict [(''grading_summary'', VStr ''/v/r2.csv'')])],
      sample_record ''s2'' ''gatk'' VNone
        [(''validate'', VDict [(''grading_summary'', VStr ''/v/r1.csv'')])]]"


text \<open>Collaborators that show what the stages are handed: annotation attaches
  statistics, and finalisation returns the statistics it finds in the first record of
  the group.\<close>

definition probe_collab :: collab where
  "probe_collab = example_collab
     \<lparr>add_to_vcf := (\<lambda>f d. (VNone, VStr ''stats'')),
      finalize_vcf := (\<lambda>f c orig. case orig of [] \<Rightarrow> VNone | x # xs \<Rightarrow> py_get x ''vrn_stats'')\<rparr>"

text \<open>A second run over the same work directory: one record carries the combined
  report of the run before, with the lines \<^verbatim>\<open>h\<close> and \<^verbatim>\<open>x\<close>, the other a new report
  with the lines \<^verbatim>\<open>h\<close> and \<^verbatim>\<open>a\<close>.\<close>

definition rerun_files :: "string \<rightharpoonup> string" where
  "rerun_files =
     [''/w/validation/grading-summary-combined.csv'' \<mapsto> ''h'' @ [newline] @ ''x'' @ [newline],
      ''/v/r1.csv'' \<mapsto> ''h'' @ [newline] @ ''a'' @ [newline]]"

definition rerun_records :: "data list" where
  "rerun_records =
     [sample_record ''s1'' ''gatk'' VNone
        [(''validate'',
          VDict [(''grading_summary'', VStr ''/w/validation/grading-summary-combined.csv'')])],
      sample_record ''s2'' ''gatk'' VNone
        [(''validate'', VDict [(''grading_summary'', VStr ''/v/r1.csv'')])]]"

text \<open>A world in which the call file of \<open>example_record\<close> exists.\<close>

definition input_world :: world where
  "input_world = \<lparr>files = [''/in/x.vcf'' \<mapsto> ''##fileformat=VCFv4.2''], calls = []\<rparr>"

text \<open>The same world after the call file has been linked into the work directory.\<close>

definition staged_world :: world where
  "staged_world =
     \<lparr>files = [''/in/x.vcf'' \<mapsto> ''##fileformat=VCFv4.2'',
               ''/w/gatk/x.vcf'' \<mapsto> ''##fileformat=VCFv4.2''],
      calls = [SafeMakedir ''/w/gatk'', SymlinkPlus ''/in/x.vcf'' ''/w/gatk/x.vcf'']\<rparr>"

definition empty_world :: world where
  "empty_world = \<lparr>files = Map.empty, calls = []\<rparr>"

section \<open>The loop of the selector\<close>

lemma field_values_Cons:
  "field_values key (d # ds) =
     (case map_of d key of None \<Rightarrow> {} | Some v \<Rightarrow> {v}) \<union> field_values key ds"
  by (simp add: field_values_def List.map_filter_simps split: option.split)

lemma defining_members_Cons:
  "defining_members key (d # ds) =
     (if map_of d key = None then [] else [d]) @ defining_members key ds"
  by (simp add: defining_members_def has_key_def)

lemma well_shaped_Cons:
  "well_shaped key (d # ds) =
     ((case map_of d key of None \<Rightarrow> True | Some v \<Rightarrow> hashable v) \<and> well_shaped key ds)"
  by (simp add: well_shaped_def List.map_filter_simps split: option.split)

lemma collect_batch_well_shaped:
  "well_shaped key ds \<Longrightarrow>
   collect_batch key ds vals out =
     Inr (vals \<union> field_values key ds, out @ defining_members key ds)"
proof (induction ds arbitrary: vals out)
  case Nil
  then show ?case by (simp add: field_values_def defining_members_def)
next
  case (Cons d ds)
  from Cons.prems have ws: "well_shaped key ds"
    by (simp add: well_shaped_Cons)
  show ?case
  proof (cases "map_of d key")
    case None
    then show ?thesis
      using Cons.IH [OF ws] by (simp add: field_values_Cons defining_members_Cons)
  next
    case (Some v)
    with Cons.prems have "hashable v" by (simp add: well_shaped_Cons)
    with Some show ?thesis
      using Cons.IH [OF ws] by (simp add: field_values_Cons defining_members_Cons)
  qed
qed

lemma field_values_empty_iff:
  "field_values key ds = {} \<longleftrightarrow> defining_members key ds = []"
proof (induction ds)
  case Nil
  show ?case by (simp add: field_values_def defining_members_def)
next
  case (Cons d ds)
  then show ?case
    by (cases "map_of d key") (simp_all add: field_values_Cons defining_members_Cons)
qed

lemma get_batch_representative_group:
  assumes "well_shaped key ds"
  shows "get_batch_representative (Group ds) key =
     (if card (field_values key ds) \<noteq> 1 then Inl (ValueError key (field_values key ds))
      else Inr (hd (defining_members key ds), Group ds))"
proof (cases "card (field_values key ds) = 1")
  case True
  then have "field_values key ds \<noteq> {}" by auto
  then have "defining_members key ds \<noteq> []" by (simp add: field_values_empty_iff)
  then obtain d rest where "defining_members key ds = d # rest"
    by (cases "defining_members key ds") auto
  with True show ?thesis
    by (simp add: get_batch_representative_def collect_batch_well_shaped [OF assms])
next
  case False
  then show ?thesis
    by (simp add: get_batch_representative_def collect_batch_well_shaped [OF assms])
qed

section \<open>Claims on the representative selector\<close>

text \<open>
  C1 (as amended). For every non-empty list of records in which every record defines the
  shared field with one and the same value (a path string or \<^verbatim>\<open>None\<close>),
  \<^verbatim>\<open>_get_batch_representative\<close> returns the first record as the representative together
  with the full original list, unchanged; a single record is returned as its own
  representative.
\<close>

theorem select_representative_agreeing_group:
  assumes "ds \<noteq> []" and "\<forall>d\<in>set ds. map_of d key = Some v" and "hashable v"
  shows "get_batch_representative (Group ds) key = Inr (hd ds, Group ds)
       \<and> get_batch_representative (Single d0) key = Inr (d0, Single d0)"
proof -
  from assms(2) have mf: "List.map_filter (\<lambda>d. map_of d key) ds = map (\<lambda>d. v) ds"
    by (induction ds) (simp_all add: List.map_filter_simps)
  have "field_values key ds = set (map (\<lambda>d. v) ds)"
    by (simp only: field_values_def mf)
  with assms(1) have fv: "field_values key ds = {v}"
    by (cases ds) auto
  from assms(2) have dm: "defining_members key ds = ds"
    by (simp add: defining_members_def has_key_def)
  from assms(3) have ws: "well_shaped key ds"
    by (simp add: well_shaped_def mf list_all_iff)
  have "get_batch_representative (Group ds) key = Inr (hd ds, Group ds)"
    by (simp add: get_batch_representative_group [OF ws] fv dm)
  moreover have "get_batch_representative (Single d0) key = Inr (d0, Single d0)"
    by (simp add: get_batch_representative_def)
  ultimately show ?thesis by simp
qed

theorem select_representative_agreeing_group_witness:
  "get_batch_representative
     (Group [[(''vrn_file'', VStr ''x.vcf'')],
             [(''id'', VStr ''s2''), (''vrn_file'', VStr ''x.vcf'')]]) ''vrn_file''
   = Inr ([(''vrn_file'', VStr ''x.vcf'')],
          Group [[(''vrn_file'', VStr ''x.vcf'')],
                 [(''id'', VStr ''s2''), (''vrn_file'', VStr ''x.vcf'')]])
   \<and> get_batch_representative (Single [(''vrn_file'', VStr ''x.vcf'')]) ''vrn_file''
   = Inr ([(''vrn_file'', VStr ''x.vcf'')], Single [(''vrn_file'', VStr ''x.vcf'')])"
  using select_representative_agreeing_group
    [of "[[(''vrn_file'', VStr ''x.vcf'')],
          [(''id'', VStr ''s2''), (''vrn_file'', VStr ''x.vcf'')]]"
        "''vrn_file''" "VStr ''x.vcf''" "[(''vrn_file'', VStr ''x.vcf'')]"]
  by simp

text \<open>The empty group satisfies the premise of C1 as it was stated (every member, of
  which there is none, defines the field) and is rejected: no value was seen.\<close>

theorem select_representative_empty_group_counterexample:
  "get_batch_representative (Group []) ''vrn_file'' = Inl (ValueError ''vrn_file'' {})"
  by (simp add: get_batch_representative_def)

text \<open>
  C2. On a group whose shared-field values are paths or \<^verbatim>\<open>None\<close>,
  \<^verbatim>\<open>_get_batch_representative\<close> raises if and only if the number of distinct values
  of the field, over the members that define it, is not exactly one, and the error is
  the \<^verbatim>\<open>ValueError\<close> that carries the field name and those values; on a single record it
  never raises.
\<close>

theorem select_representative_raises_iff:
  assumes "well_shaped key ds"
  shows "(isl (get_batch_representative (Group ds) key) \<longleftrightarrow> card (field_values key ds) \<noteq> 1)
       \<and> (card (field_values key ds) \<noteq> 1 \<longrightarrow>
            get_batch_representative (Group ds) key = Inl (ValueError key (field_values key ds)))
       \<and> \<not> isl (get_batch_representative (Single d0) key)"
proof -
  have "\<not> isl (get_batch_representative (Single d0) key)"
    by (simp add: get_batch_representative_def)
  then show ?thesis
    by (simp add: get_batch_representative_group [OF assms])
qed

theorem select_representative_raises_iff_witness:
  "get_batch_representative
     (Group [[(''vrn_file'', VStr ''x.vcf'')], [(''vrn_file'', VStr ''y.vcf'')]]) ''vrn_file''
   = Inl (ValueError ''vrn_file'' {VStr ''x.vcf'', VStr ''y.vcf''})"
  using select_representative_raises_iff
    [of "''vrn_file''" "[[(''vrn_file'', VStr ''x.vcf'')], [(''vrn_file'', VStr ''y.vcf'')]]"]
  by (simp add: well_shaped_def field_values_def List.map_filter_simps)

text \<open>
  C9 (as amended). For every group whose members that define the shared field agree on
  it, the second component returned by \<^verbatim>\<open>_get_batch_representative\<close> is the full
  original group, the members without the field included; the representative is the
  first member that defines the field.
\<close>

theorem select_representative_returns_whole_group:
  assumes "well_shaped key ds" and "card (field_values key ds) = 1"
  shows "get_batch_representative (Group ds) key
         = Inr (hd (defining_members key ds), Group ds)"
  using assms(2) by (simp add: get_batch_representative_group [OF assms(1)])

theorem select_representative_returns_whole_group_witness:
  "get_batch_representative
     (Group [[(''id'', VStr ''s1'')], [(''vrn_file'', VStr ''x.vcf'')]]) ''vrn_file''
   = Inr ([(''vrn_file'', VStr ''x.vcf'')],
          Group [[(''id'', VStr ''s1'')], [(''vrn_file'', VStr ''x.vcf'')]])"
  using select_representative_returns_whole_group
    [of "''vrn_file''" "[[(''id'', VStr ''s1'')], [(''vrn_file'', VStr ''x.vcf'')]]"]
  by (simp add: well_shaped_def field_values_def defining_members_def has_key_def
      List.map_filter_simps)

text \<open>A member without the field stays in the returned group: the second component is
  not the list of the members that define the field.\<close>

theorem select_representative_filtered_group_counterexample:
  "get_batch_representative
     (Group [[(''vrn_file'', VStr ''x.vcf'')], [(''id'', VStr ''s2'')]]) ''vrn_file''
   = Inr ([(''vrn_file'', VStr ''x.vcf'')],
          Group [[(''vrn_file'', VStr ''x.vcf'')], [(''id'', VStr ''s2'')]])
   \<and> defining_members ''vrn_file'' [[(''vrn_file'', VStr ''x.vcf'')], [(''id'', VStr ''s2'')]]
     = [[(''vrn_file'', VStr ''x.vcf'')]]"
  by (simp add: get_batch_representative_def defining_members_def has_key_def)

section \<open>Facts about paths and nested updates\<close>

lemma lookup_in_update_in:
  "lookup_in ks (VDict d) = Some (VStr p) \<Longrightarrow>
   \<exists>d'. update_in d ks v = Inr d' \<and> lookup_in ks (VDict d') = Some v"
proof (induction ks arbitrary: d)
  case Nil
  then show ?case by simp
next
  case (Cons k ks)
  show ?case
  proof (cases ks)
    case Nil
    then show ?thesis by (simp add: update_conv')
  next
    case (Cons k' ks')
    from Cons.prems obtain x where x: "map_of d k = Some x" "lookup_in ks x = Some (VStr p)"
      by (auto split: option.splits)
    with Cons obtain inner where inner: "x = VDict inner"
      by (cases x) auto
    from Cons.IH [of inner] x inner obtain i' where
      "update_in inner ks v = Inr i'" "lookup_in ks (VDict i') = Some v" by auto
    with x inner Cons show ?thesis by (simp add: update_conv')
  qed
qed

lemma update_in_same:
  "lookup_in ks (VDict d) = Some v \<Longrightarrow> ks \<noteq> [] \<Longrightarrow> update_in d ks v = Inr d"
proof (induction ks arbitrary: d)
  case Nil
  then show ?case by simp
next
  case (Cons k ks)
  show ?case
  proof (cases ks)
    case Nil
    with Cons.prems show ?thesis by (auto simp: update_triv split: option.splits)
  next
    case (Cons k' ks')
    from Cons.prems obtain x where x: "map_of d k = Some x" "lookup_in ks x = Some v"
      by (auto split: option.splits)
    with Cons obtain inner where inner: "x = VDict inner"
      by (cases x) auto
    from Cons.IH [of inner] x inner Cons have "update_in inner ks v = Inr inner" by auto
    with x inner Cons show ?thesis by (simp add: update_triv)
  qed
qed

lemma basename_no_sep: "CHR ''/'' \<notin> set (basename p)"
  by (auto simp: basename_def dest: set_takeWhileD)

lemma basename_join2:
  "CHR ''/'' \<notin> set b \<Longrightarrow> basename (join2 x b) = b"
proof -
  assume b: "CHR ''/'' \<notin> set b"
  then have tw: "takeWhile (\<lambda>c. c \<noteq> CHR ''/'') (rev b) = rev b"
    by (auto simp: takeWhile_eq_all_conv)
  have nb: "\<not> startswith b ''/''"
    using b by (cases b) (auto simp: startswith_def)
  show ?thesis
  proof (cases "x = []")
    case True
    with nb show ?thesis by (simp add: join2_def basename_def tw)
  next
    case False
    then obtain y c where x: "x = y @ [c]" by (cases x rule: rev_cases) auto
    with nb b show ?thesis
      by (auto simp: join2_def basename_def takeWhile_append tw)
  qed
qed

section \<open>Claims on the workspace stager\<close>

lemma get_in_VStr:
  "get_in key d VNone = VStr p \<Longrightarrow> lookup_in key (VDict d) = Some (VStr p)"
  by (simp add: get_in_def split: option.splits)

lemma lies_under_startswith: "lies_under p dir \<Longrightarrow> startswith p dir"
  by (auto simp: lies_under_def startswith_def prefix_def split: if_splits)

lemma symlink_to_workdir_rewrite:
  assumes "get_in key d VNone = VStr p" and "p \<noteq> []"
    and "\<not> startswith p (dd_get_work_dir C d)"
    and "creatable C (dirname (target_path C d p))"
    and "files w p = Some c"
    and "creatable C (target_path C d p)"
  shows "\<exists>d'. symlink_to_workdir C d key w =
            (Inr d', w\<lparr>files := (files w)(target_path C d p \<mapsto> c),
                        calls := calls w @ [SafeMakedir (dirname (target_path C d p)),
                                            SymlinkPlus p (target_path C d p)]\<rparr>)
          \<and> update_in d key (VStr (target_path C d p)) = Inr d'
          \<and> get_in key d' VNone = VStr (target_path C d p)"
proof -
  from lookup_in_update_in [OF get_in_VStr [OF assms(1)], of "VStr (target_path C d p)"]
  obtain d' where d': "update_in d key (VStr (target_path C d p)) = Inr d'"
    "lookup_in key (VDict d') = Some (VStr (target_path C d p))" by blast
  with assms show ?thesis
    by (simp add: symlink_to_workdir_def safe_makedir_def symlink_plus_def Let_def
        log_call_def get_in_def)
qed

lemma symlink_to_workdir_fails:
  assumes "get_in key d VNone = VStr p" and "p \<noteq> []"
    and "\<not> startswith p (dd_get_work_dir C d)"
    and "\<not> creatable C (dirname (target_path C d p)) \<or> files w p = None
         \<or> \<not> creatable C (target_path C d p)"
  shows "isl (fst (symlink_to_workdir C d key w))"
  using assms
  by (auto simp: symlink_to_workdir_def safe_makedir_def symlink_plus_def Let_def
      log_call_def split: option.splits)

lemma symlink_to_workdir_returned:
  assumes "get_in key d VNone = VStr p" and "p \<noteq> []"
    and "\<not> startswith p (dd_get_work_dir C d)"
    and "symlink_to_workdir C d key w = (Inr d1, w1)"
  shows "creatable C (dirname (target_path C d p)) \<and> creatable C (target_path C d p)
       \<and> (\<exists>c. files w p = Some c)"
proof (rule ccontr)
  assume "\<not> ?thesis"
  then have "\<not> creatable C (dirname (target_path C d p)) \<or> files w p = None
         \<or> \<not> creatable C (target_path C d p)" by auto
  from symlink_to_workdir_fails [OF assms(1-3) this] assms(4) show False by simp
qed

text \<open>
  C7 (as amended). For every record and field path: if the field is unset, \<^verbatim>\<open>None\<close> or
  empty, or the path it holds lies under the record's work directory,
  \<^verbatim>\<open>_symlink_to_workdir\<close> returns the record unchanged and calls no collaborator. If
  the field holds a non-empty path that does not begin with the work directory's path,
  the code calls \<^verbatim>\<open>safe_makedir\<close> on the directory of the target and \<^verbatim>\<open>symlink_plus\<close>
  from the source to the target; when the source exists and the directory and the link
  can be created, it returns the record with the field rewritten to the target, which is
  the join of the work directory, the variant caller (or \<^verbatim>\<open>"precalled"\<close>) and the base
  name of the original path, and otherwise it raises.
\<close>

theorem symlink_to_workdir_cases:
  "(\<not> truthy (get_in key d VNone) \<longrightarrow> symlink_to_workdir C d key w = (Inr d, w))
   \<and> (get_in key d VNone = VStr p \<and> lies_under p (dd_get_work_dir C d) \<longrightarrow>
        symlink_to_workdir C d key w = (Inr d, w))
   \<and> (get_in key d VNone = VStr p \<and> p \<noteq> [] \<and> \<not> startswith p (dd_get_work_dir C d)
        \<and> creatable C (dirname (target_path C d p)) \<and> files w p = Some c
        \<and> creatable C (target_path C d p) \<longrightarrow>
        (\<exists>d'. symlink_to_workdir C d key w =
            (Inr d', w\<lparr>files := (files w)(target_path C d p \<mapsto> c),
                        calls := calls w @ [SafeMakedir (dirname (target_path C d p)),
                                            SymlinkPlus p (target_path C d p)]\<rparr>)
          \<and> update_in d key (VStr (target_path C d p)) = Inr d'
          \<and> get_in key d' VNone = VStr (target_path C d p)))
   \<and> (get_in key d VNone = VStr p \<and> p \<noteq> [] \<and> \<not> startswith p (dd_get_work_dir C d)
        \<and> (\<not> creatable C (dirname (target_path C d p)) \<or> files w p = None
             \<or> \<not> creatable C (target_path C d p)) \<longrightarrow>
        isl (fst (symlink_to_workdir C d key w)))"
proof (intro conjI impI)
  assume "\<not> truthy (get_in key d VNone)"
  then show "symlink_to_workdir C d key w = (Inr d, w)"
    by (simp add: symlink_to_workdir_def)
next
  assume "get_in key d VNone = VStr p \<and> lies_under p (dd_get_work_dir C d)"
  then show "symlink_to_workdir C d key w = (Inr d, w)"
    using lies_under_startswith [of p "dd_get_work_dir C d"]
    by (simp add: symlink_to_workdir_def)
next
  assume "get_in key d VNone = VStr p \<and> p \<noteq> [] \<and> \<not> startswith p (dd_get_work_dir C d)
        \<and> creatable C (dirname (target_path C d p)) \<and> files w p = Some c
        \<and> creatable C (target_path C d p)"
  then show "\<exists>d'. symlink_to_workdir C d key w =
            (Inr d', w\<lparr>files := (files w)(target_path C d p \<mapsto> c),
                        calls := calls w @ [SafeMakedir (dirname (target_path C d p)),
                                            SymlinkPlus p (target_path C d p)]\<rparr>)
          \<and> update_in d key (VStr (target_path C d p)) = Inr d'
          \<and> get_in key d' VNone = VStr (target_path C d p)"
    using symlink_to_workdir_rewrite by blast
next
  assume "get_in key d VNone = VStr p \<and> p \<noteq> [] \<and> \<not> startswith p (dd_get_work_dir C d)
        \<and> (\<not> creatable C (dirname (target_path C d p)) \<or> files w p = None
             \<or> \<not> creatable C (target_path C d p))"
  then show "isl (fst (symlink_to_workdir C d key w))"
    using symlink_to_workdir_fails by blast
qed

lemma join2_nonempty: "x \<noteq> [] \<or> b \<noteq> [] \<Longrightarrow> join2 x b \<noteq> []"
  by (auto simp: join2_def startswith_def)

lemma target_path_nonempty: "target_path C d p \<noteq> []"
  by (simp add: target_path_def path_join_def join2_nonempty split: option.splits)

lemma basename_target_path: "basename (target_path C d p) = basename p"
  by (simp add: target_path_def path_join_def basename_join2 basename_no_sep)

lemma prefix_join2: "\<not> startswith b ''/'' \<Longrightarrow> startswith x w \<Longrightarrow> startswith (join2 x b) w"
  by (auto simp: join2_def startswith_def)

lemma basename_not_absolute: "\<not> startswith (basename p) ''/''"
  using basename_no_sep [of p] by (cases "basename p") (auto simp: startswith_def)

lemma target_path_under_work_dir:
  assumes "\<forall>c. get_variantcaller C d = Some c \<longrightarrow> \<not> startswith c ''/''"
  shows "startswith (target_path C d p) (dd_get_work_dir C d)"
proof -
  have w: "startswith (dd_get_work_dir C d) (dd_get_work_dir C d)"
    by (simp add: startswith_def)
  have "\<not> startswith ''precalled'' ''/''" by (simp add: startswith_def)
  with assms show ?thesis
    by (auto simp: target_path_def path_join_def prefix_join2 [OF basename_not_absolute]
        prefix_join2 [OF _ w] split: option.splits)
qed

text \<open>
  C8. When \<^verbatim>\<open>_symlink_to_workdir\<close> has returned a record, applying it to that record
  again returns the same record, with the same target path in the field, and raises
  nothing; it calls no collaborator again when the caller's name is not an absolute
  path. The work directory and the caller that the accessors read from the staged
  record are those of the original record.
\<close>

theorem symlink_to_workdir_idempotent:
  assumes first: "symlink_to_workdir C d key w = (Inr d1, w1)"
    and wd: "dd_get_work_dir C d1 = dd_get_work_dir C d"
    and vc: "get_variantcaller C d1 = get_variantcaller C d"
  shows "\<exists>w2. symlink_to_workdir C d1 key w1 = (Inr d1, w2)
           \<and> ((\<forall>c. get_variantcaller C d = Some c \<longrightarrow> \<not> startswith c ''/'') \<longrightarrow> w2 = w1)"
proof (cases "truthy (get_in key d VNone)")
  case False
  with first have "d1 = d" "w1 = w" by (simp_all add: symlink_to_workdir_def)
  with first show ?thesis by simp
next
  case True
  show ?thesis
  proof (cases "get_in key d VNone")
    case (VStr p)
    with True have pne: "p \<noteq> []" by simp
    show ?thesis
    proof (cases "startswith p (dd_get_work_dir C d)")
      case True
      with VStr pne first have "d1 = d" "w1 = w" by (simp_all add: symlink_to_workdir_def)
      with first show ?thesis by simp
    next
      case False
      from symlink_to_workdir_returned [OF VStr pne False first] obtain c where
        ok: "creatable C (dirname (target_path C d p))" "creatable C (target_path C d p)"
          "files w p = Some c" by blast
      from symlink_to_workdir_rewrite [OF VStr pne False ok(1) ok(3) ok(2)] first
      have g1: "get_in key d1 VNone = VStr (target_path C d p)"
        and w1: "files w1 = (files w)(target_path C d p \<mapsto> c)" by auto
      have tp: "target_path C d1 (target_path C d p) = target_path C d p"
        using wd vc basename_target_path [of C d p]
        by (simp add: target_path_def)
      show ?thesis
      proof (cases "startswith (target_path C d p) (dd_get_work_dir C d1)")
        case True
        with g1 show ?thesis by (simp add: symlink_to_workdir_def)
      next
        case False
        with wd target_path_under_work_dir [of C d p]
        have abs: "\<not> (\<forall>c. get_variantcaller C d = Some c \<longrightarrow> \<not> startswith c ''/'')"
          by auto
        have again: "creatable C (dirname (target_path C d1 (target_path C d p)))"
          "files w1 (target_path C d p) = Some c"
          "creatable C (target_path C d1 (target_path C d p))"
          using ok w1 by (simp_all add: tp)
        from symlink_to_workdir_rewrite [OF g1 target_path_nonempty False again]
        obtain d2 w2 where d2: "symlink_to_workdir C d1 key w1 = (Inr d2, w2)"
          "update_in d1 key (VStr (target_path C d p)) = Inr d2"
          by (auto simp: tp)
        from update_in_same [OF get_in_VStr [OF g1]] get_in_VStr [OF g1]
        have "update_in d1 key (VStr (target_path C d p)) = Inr d1" by (cases key) auto
        with d2 have "d2 = d1" by simp
        with d2 abs show ?thesis by auto
      qed
    qed
  next
    case VNone
    with True show ?thesis by simp
  next
    case (VList xs)
    with True first show ?thesis by (simp add: symlink_to_workdir_def)
  next
    case (VDict kvs)
    with True first show ?thesis by (simp add: symlink_to_workdir_def)
  qed
qed

theorem symlink_to_workdir_idempotent_witness:
  "symlink_to_workdir example_collab example_record [''vrn_file''] input_world
     = (Inr staged_record, staged_world)
   \<and> symlink_to_workdir example_collab staged_record [''vrn_file''] staged_world
     = (Inr staged_record, staged_world)"
proof -
  have first: "symlink_to_workdir example_collab example_record [''vrn_file''] input_world
     = (Inr staged_record, staged_world)"
    by (simp add: symlink_to_workdir_def safe_makedir_def symlink_plus_def example_collab_def
        example_record_def staged_record_def input_world_def staged_world_def get_in_def
        path_of_def name_of_def startswith_def target_path_def path_join_def join2_def
        basename_def dirname_def log_call_def Let_def)
  have wd: "dd_get_work_dir example_collab staged_record = dd_get_work_dir example_collab example_record"
    by (simp add: example_collab_def example_record_def staged_record_def get_in_def)
  have vc: "get_variantcaller example_collab staged_record = get_variantcaller example_collab example_record"
    by (simp add: example_collab_def example_record_def staged_record_def get_in_def)
  have rel: "\<forall>c. get_variantcaller example_collab example_record = Some c \<longrightarrow> \<not> startswith c ''/''"
    by (simp add: example_collab_def example_record_def get_in_def name_of_def startswith_def)
  from symlink_to_workdir_idempotent [OF first wd vc] rel first show ?thesis by auto
qed

theorem symlink_to_workdir_cases_witness:
  "symlink_to_workdir example_collab example_record [''vrn_file''] input_world
     = (Inr staged_record, staged_world)
   \<and> get_in [''vrn_file''] staged_record VNone = VStr ''/w/gatk/x.vcf''"
  using symlink_to_workdir_cases
    [of "[''vrn_file'']" example_record example_collab input_world "''/in/x.vcf''"
        "''##fileformat=VCFv4.2''"]
  by (simp add: example_collab_def example_record_def staged_record_def input_world_def
        staged_world_def get_in_def path_of_def name_of_def startswith_def target_path_def
        path_join_def join2_def basename_def dirname_def Let_def)

text \<open>A record whose field is unset references no path under the work directory, and
  is returned as it is, with nothing linked and nothing rewritten.\<close>

theorem symlink_to_workdir_unset_field_counterexample:
  "get_in [''config'', ''algorithm'', ''variant_regions''] example_record VNone = VNone
   \<and> symlink_to_workdir example_collab example_record
        [''config'', ''algorithm'', ''variant_regions''] empty_world
     = (Inr example_record, empty_world)"
  by (simp add: symlink_to_workdir_def example_record_def get_in_def)

section \<open>Claims on the output deduplicator\<close>

lemma emits_Nil: "emits C [] m w m w"
  by (simp add: emits_def outputs_def)

lemma emits_append:
  assumes "emits C js1 m w m1 w1" and "emits C js2 m1 w1 m2 w2"
  shows "emits C (js1 @ js2) m w m2 w2"
proof -
  from assms(1) have m1: "added m1 = added m \<union> job_name C ` set js1"
    "out_calls m1 = out_calls m @ outputs C Calls js1"
    "out_gvcf m1 = out_gvcf m @ outputs C Gvcf js1"
    "calls w1 = calls w @ concat (map (job_calls C) js1)"
    by (simp_all add: emits_def)
  from assms(2) have disj: "job_name C ` set js2 \<inter> added m1 = {}"
    by (simp add: emits_def)
  with m1(1) have d12: "job_name C ` set js1 \<inter> job_name C ` set js2 = {}"
    and d2: "job_name C ` set js2 \<inter> added m = {}" by auto
  from assms have dist: "distinct (map (job_name C) (js1 @ js2))"
    using d12 by (simp add: emits_def)
  from assms(1) d2 have fresh: "job_name C ` set (js1 @ js2) \<inter> added m = {}"
    by (auto simp: emits_def)
  from assms(2) have "m2 = \<lparr>added = added m1 \<union> job_name C ` set js2,
            out_calls = out_calls m1 @ outputs C Calls js2,
            out_gvcf = out_gvcf m1 @ outputs C Gvcf js2\<rparr>"
    by (simp add: emits_def)
  then have m2: "m2 = \<lparr>added = added m \<union> job_name C ` set (js1 @ js2),
            out_calls = out_calls m @ outputs C Calls (js1 @ js2),
            out_gvcf = out_gvcf m @ outputs C Gvcf (js1 @ js2)\<rparr>"
    by (simp add: m1 outputs_def Un_assoc image_Un)
  from assms(2) have "w2 = w1\<lparr>calls := calls w1 @ concat (map (job_calls C) js2)\<rparr>"
    by (simp add: emits_def)
  moreover from assms(1) have "w1 = w\<lparr>calls := calls w @ concat (map (job_calls C) js1)\<rparr>"
    by (simp add: emits_def)
  ultimately have w2: "w2 = w\<lparr>calls := calls w @ concat (map (job_calls C) (js1 @ js2))\<rparr>"
    by simp
  from dist fresh m2 w2 show ?thesis by (simp only: emits_def simp_thms)
qed

lemma add_output_emits:
  assumes "add_output C d e m w = (Inr m', w')"
  shows "\<exists>js. emits C js m w m' w' \<and> set js \<subseteq> {(d, e)}"
proof -
  obtain vk kind name where e: "e = (vk, kind, name)" by (cases e) auto
  show ?thesis
  proof (cases "cur_name_of C d name \<in> added m")
    case True
    with assms e have "m' = m" "w' = w" by (simp_all add: add_output_def)
    then show ?thesis using emits_Nil [of C m w] by (intro exI [of _ "[]"]) simp
  next
    case False
    from assms e False have mk: "creatable C (out_dir_of C d kind)"
      by (auto simp: add_output_def safe_makedir_def Let_def split: if_splits)
    from assms e False mk obtain p cfg where
      p: "map_of d vk = Some (VStr p)" and cfg: "map_of d ''config'' = Some cfg"
      by (auto simp: add_output_def safe_makedir_def Let_def item_def
          split: option.splits val.splits)
    from assms e False mk p cfg have
      m': "m' = append_out kind (out_file_of C d kind name)
                 (m\<lparr>added := insert (cur_name_of C d name) (added m)\<rparr>)"
      and w': "w' = log_call (BgzipAndIndex (out_file_of C d kind name) cfg)
                 (log_call (CopyPlus (realpath C p) (out_file_of C d kind name))
                   (log_call (SafeMakedir (out_dir_of C d kind)) w))"
      by (simp_all add: add_output_def safe_makedir_def out_file_of_def Let_def item_def)
    have "emits C [(d, e)] m w m' w'"
      using False p cfg
      by (cases kind)
        (simp_all add: emits_def e m' w' job_name_def outputs_def job_kind_def job_file_def
          job_calls_def job_copy_def append_out_def log_call_def py_get_def path_of_def)
    then show ?thesis by (intro exI [of _ "[(d, e)]"]) simp
  qed
qed

lemma add_outputs_emits:
  "add_outputs C d es m w = (Inr m', w') \<Longrightarrow>
   \<exists>js. emits C js m w m' w' \<and> set js \<subseteq> Pair d ` set es"
proof (induction es arbitrary: m w)
  case Nil
  then show ?case using emits_Nil [of C m w] by (intro exI [of _ "[]"]) simp
next
  case (Cons e es)
  from Cons.prems obtain m1 w1 where
    s1: "add_output C d e m w = (Inr m1, w1)" and
    s2: "add_outputs C d es m1 w1 = (Inr m', w')"
    by (auto split: prod.splits sum.splits)
  from add_output_emits [OF s1] obtain js1 where
    j1: "emits C js1 m w m1 w1" "set js1 \<subseteq> {(d, e)}" by blast
  from Cons.IH [OF s2] obtain js2 where
    j2: "emits C js2 m1 w1 m' w'" "set js2 \<subseteq> Pair d ` set es" by blast
  from emits_append [OF j1(1) j2(1)] j1(2) j2(2) show ?case
    by (intro exI [of _ "js1 @ js2"]) auto
qed

lemma summarize_loop_emits:
  "summarize_loop C ds m w = (Inr m', w') \<Longrightarrow>
   \<exists>js. emits C js m w m' w' \<and> (\<forall>j\<in>set js. fst j \<in> set ds \<and> snd j \<in> set (to_add C (fst j)))"
proof (induction ds arbitrary: m w)
  case Nil
  then show ?case using emits_Nil [of C m w] by (intro exI [of _ "[]"]) simp
next
  case (Cons d ds)
  show ?case
  proof (cases "truthy (py_get d ''vrn_file'')")
    case False
    with Cons.prems have "summarize_loop C ds m w = (Inr m', w')" by simp
    from Cons.IH [OF this] show ?thesis by auto
  next
    case True
    with Cons.prems obtain m1 w1 where
      s1: "add_outputs C d (to_add C d) m w = (Inr m1, w1)" and
      s2: "summarize_loop C ds m1 w1 = (Inr m', w')"
      by (auto split: prod.splits sum.splits)
    from add_outputs_emits [OF s1] obtain js1 where
      j1: "emits C js1 m w m1 w1" "set js1 \<subseteq> Pair d ` set (to_add C d)" by blast
    from Cons.IH [OF s2] obtain js2 where
      j2: "emits C js2 m1 w1 m' w'"
        "\<forall>j\<in>set js2. fst j \<in> set ds \<and> snd j \<in> set (to_add C (fst j))" by blast
    from emits_append [OF j1(1) j2(1)] j1(2) j2(2) show ?thesis
      by (intro exI [of _ "js1 @ js2"]) auto
  qed
qed


lemma filter_is_copy_job_calls:
  "filter is_copy (concat (map (job_calls C) js)) = map (job_copy C) js"
  by (induction js) (auto simp: job_calls_def job_copy_def split: prod.splits)

lemma combine_validations_copies:
  "filter is_copy (calls (snd (combine_validations C its w))) = filter is_copy (calls w)"
  by (auto simp: combine_validations_def safe_makedir_def Let_def log_call_def
      split: sum.splits prod.splits list.splits option.splits)

lemma job_name_by_key:
  "job_name C j = (case job_key C j of (name, caller) \<Rightarrow>
      name @ ''-'' @ (case caller of None \<Rightarrow> ''None'' | Some c \<Rightarrow> c))"
  by (simp add: job_name_def job_key_def cur_name_of_def split: prod.splits)

lemma distinct_job_key:
  assumes "distinct (map (job_name C) js)"
  shows "distinct (map (job_key C) js)"
proof -
  have "map (job_name C) js =
      map (\<lambda>k. case k of (name, caller) \<Rightarrow>
        name @ ''-'' @ (case caller of None \<Rightarrow> ''None'' | Some c \<Rightarrow> c)) (map (job_key C) js)"
    by (simp add: job_name_by_key)
  with assms show ?thesis by (metis distinct_map)
qed

text \<open>
  C3. Whenever \<^verbatim>\<open>summarize_vc\<close> returns, there is a list of outputs of the input
  records, no two of them with the same (name, variant caller) key, such that the
  \<^verbatim>\<open>calls\<close> and \<^verbatim>\<open>gvcf\<close> lists of the returned manifest are exactly the files of
  these outputs, each listed once under its kind, and the files copied are exactly
  theirs, one copy each. An output whose key was emitted before, under either kind,
  adds no entry and no file.
\<close>

theorem summarize_vc_one_output_per_key:
  assumes "summarize_vc C its w = (Inr res, w')"
  shows "\<exists>js validate.
           distinct (map (job_key C) js)
         \<and> (\<forall>j\<in>set js.
               fst j \<in> set (map (to_single_data C) (fst (summarize_grading C its (files w))))
             \<and> snd j \<in> set (to_add C (fst j)))
         \<and> res = [[(''validate'', VDict validate),
                   (''variants'', VDict [(''calls'', VList (map VStr (outputs C Calls js))),
                                         (''gvcf'', VList (map VStr (outputs C Gvcf js)))])]]
         \<and> filter is_copy (calls w') = filter is_copy (calls w) @ map (job_copy C) js"
proof -
  obtain graded fs where g: "summarize_grading C its (files w) = (graded, fs)"
    by (cases "summarize_grading C its (files w)") auto
  define its1 where "its1 = map (to_single_data C) graded"
  from assms g obtain validate w1 m where
    cv: "combine_validations C its1 (w\<lparr>files := fs\<rparr>) = (Inr validate, w1)" and
    lp: "summarize_loop C its1 empty_manifest w1 = (Inr m, w')" and
    res: "res = [manifest_value validate m]"
    by (auto simp: summarize_vc_def Let_def its1_def split: prod.splits sum.splits)
  from summarize_loop_emits [OF lp] obtain js where
    em: "emits C js empty_manifest w1 m w'" and
    mem: "\<forall>j\<in>set js. fst j \<in> set its1 \<and> snd j \<in> set (to_add C (fst j))" by blast
  from em have dist: "distinct (map (job_key C) js)"
    by (simp add: emits_def distinct_job_key)
  from em have m: "out_calls m = outputs C Calls js" "out_gvcf m = outputs C Gvcf js"
    by (simp_all add: emits_def empty_manifest_def)
  from em have "calls w' = calls w1 @ concat (map (job_calls C) js)"
    by (simp add: emits_def)
  moreover from combine_validations_copies [of C its1 "w\<lparr>files := fs\<rparr>"] cv
  have "filter is_copy (calls w1) = filter is_copy (calls w)" by simp
  ultimately have cp: "filter is_copy (calls w') = filter is_copy (calls w) @ map (job_copy C) js"
    by (simp add: filter_is_copy_job_calls)
  from dist mem res m cp g show ?thesis
    by (intro exI [of _ js] exI [of _ validate]) (simp add: manifest_value_def its1_def)
qed


theorem summarize_vc_one_output_per_key_witness:
  "\<exists>js validate.
      distinct (map (job_key example_collab) js)
    \<and> (\<forall>j\<in>set js.
          fst j \<in> set (map (to_single_data example_collab)
                     (fst (summarize_grading example_collab batch_records (files empty_world))))
        \<and> snd j \<in> set (to_add example_collab (fst j)))
    \<and> [[(''validate'',
          VDict [(''grading_plots'', VList []),
                 (''grading_summary'', VStr ''/w/validation/grading-summary-combined.csv'')]),
         (''variants'',
          VDict [(''calls'', VList [VStr ''/w/variants/calls/b1-gatk.vcf.gz'']),
                 (''gvcf'', VList [VStr ''/w/variants/gvcf/s1-gatk.vcf.gz'',
                                   VStr ''/w/variants/gvcf/s2-gatk.vcf.gz''])])]]
      = [[(''validate'', VDict validate),
          (''variants'', VDict [(''calls'', VList (map VStr (outputs example_collab Calls js))),
                                (''gvcf'', VList (map VStr (outputs example_collab Gvcf js)))])]]
    \<and> filter is_copy (calls (snd (summarize_vc example_collab batch_records empty_world)))
      = filter is_copy (calls empty_world) @ map (job_copy example_collab) js"
proof -
  have "fst (summarize_vc example_collab batch_records empty_world) =
     Inr [[(''validate'',
            VDict [(''grading_plots'', VList []),
                   (''grading_summary'', VStr ''/w/validation/grading-summary-combined.csv'')]),
           (''variants'',
            VDict [(''calls'', VList [VStr ''/w/variants/calls/b1-gatk.vcf.gz'']),
                   (''gvcf'', VList [VStr ''/w/variants/gvcf/s1-gatk.vcf.gz'',
                                     VStr ''/w/variants/gvcf/s2-gatk.vcf.gz''])])]]"
    by code_simp
  then have run: "summarize_vc example_collab batch_records empty_world =
     (Inr [[(''validate'',
            VDict [(''grading_plots'', VList []),
                   (''grading_summary'', VStr ''/w/validation/grading-summary-combined.csv'')]),
           (''variants'',
            VDict [(''calls'', VList [VStr ''/w/variants/calls/b1-gatk.vcf.gz'']),
                   (''gvcf'', VList [VStr ''/w/variants/gvcf/s1-gatk.vcf.gz'',
                                     VStr ''/w/variants/gvcf/s2-gatk.vcf.gz''])])]],
      snd (summarize_vc example_collab batch_records empty_world))"
    by (metis prod.collapse)
  from summarize_vc_one_output_per_key [OF run] show ?thesis .
qed

text \<open>
  C10. The name under which \<^verbatim>\<open>summarize_vc\<close> remembers an output is the one string
  \<^verbatim>\<open>name-caller\<close>. The sample \<^verbatim>\<open>a-b\<close> called by \<^verbatim>\<open>c\<close> and the sample \<^verbatim>\<open>a\<close>
  called by \<^verbatim>\<open>b-c\<close> have different (name, caller) keys and the same string: the
  first record gets its output file, the second gets none and no manifest entry.
\<close>

theorem summarize_vc_concatenated_key_clash:
  "job_key example_collab (sample_record ''a-b'' ''c'' VNone [], ''vrn_file'', Calls, ''a-b'')
     = (''a-b'', Some ''c'')
   \<and> job_key example_collab (sample_record ''a'' ''b-c'' VNone [], ''vrn_file'', Calls, ''a'')
     = (''a'', Some ''b-c'')
   \<and> to_add example_collab (sample_record ''a-b'' ''c'' VNone []) = [(''vrn_file'', Calls, ''a-b'')]
   \<and> to_add example_collab (sample_record ''a'' ''b-c'' VNone []) = [(''vrn_file'', Calls, ''a'')]
   \<and> fst (summarize_vc example_collab
            [sample_record ''a-b'' ''c'' VNone [], sample_record ''a'' ''b-c'' VNone []] empty_world)
     = Inr [[(''validate'',
              VDict [(''grading_plots'', VList []),
                     (''grading_summary'', VStr ''/w/validation/grading-summary-combined.csv'')]),
             (''variants'',
              VDict [(''calls'', VList [VStr ''/w/variants/calls/a-b-c.vcf.gz'']),
                     (''gvcf'', VList [])])]]
   \<and> filter is_copy (calls (snd (summarize_vc example_collab
            [sample_record ''a-b'' ''c'' VNone [], sample_record ''a'' ''b-c'' VNone []] empty_world)))
     = [CopyPlus ''/in/a-b.vcf'' ''/w/variants/calls/a-b-c.vcf.gz'']"
  by code_simp

section \<open>Claims on the report merger\<close>

lemma foldl_append_concat: "foldl (@) buf ls = buf @ concat ls"
  by (induction ls arbitrary: buf) simp_all

lemma merge_one_eq:
  "merge_one i content buf = buf @ (if i = 0 then header_of content else []) @ body_of content"
  by (simp add: merge_one_def Let_def foldl_append_concat header_of_def body_of_def)

lemma merge_loop_present:
  "map fs reports = map Some contents \<Longrightarrow>
   merge_loop fs i reports buf =
     (None, buf @ (if i = 0 then (case contents of [] \<Rightarrow> [] | c # cs \<Rightarrow> header_of c) else [])
              @ concat (map body_of contents))"
proof (induction reports arbitrary: i buf contents)
  case Nil
  then show ?case by simp
next
  case (Cons r reports)
  then obtain c cs where c: "contents = c # cs" "fs r = Some c" "map fs reports = map Some cs"
    by (cases contents) auto
  from Cons.IH [OF c(3), of "Suc i"] c show ?case
    by (simp add: merge_one_eq)
qed

lemma collect_validations_reports:
  "collect_validations its csvs pngs = Inr (csvs', pngs') \<Longrightarrow>
   csvs' = csvs \<union> report_paths its"
proof (induction its arbitrary: csvs pngs)
  case Nil
  then show ?case by (simp add: report_paths_def)
next
  case (Cons x xs)
  have rp: "report_paths (x # xs) =
      (case report_of x of None \<Rightarrow> {} | Some s \<Rightarrow> {s}) \<union> report_paths xs"
    by (simp add: report_paths_def List.map_filter_simps split: option.split)
  show ?case
  proof (cases "truthy (py_get x ''validate'')")
    case False
    then have "report_of x = None"
      by (cases "py_get x ''validate''") (simp_all add: report_of_def split: val.splits)
    with False Cons.prems Cons.IH [of csvs pngs] show ?thesis
      by (simp add: rp)
  next
    case True
    with Cons.prems obtain v where v: "py_get x ''validate'' = VDict v"
      by (cases "py_get x ''validate''") auto
    with True have vne: "v \<noteq> []" by simp
    from True v Cons.prems obtain c1 p1 where
      c1: "add_summary (py_get v ''grading_summary'') csvs = Inr c1" and
      rest: "collect_validations xs c1 p1 = Inr (csvs', pngs')"
      by (auto split: sum.splits)
    from c1 vne v have "c1 = csvs \<union> (case report_of x of None \<Rightarrow> {} | Some s \<Rightarrow> {s})"
      by (cases "py_get v ''grading_summary''")
        (auto simp: add_summary_def report_of_def split: if_splits)
    with Cons.IH [OF rest] show ?thesis by (auto simp: rp)
  qed
qed

text \<open>The reports are the report paths of the records. One report is returned as it
  is. Several reports that can be read, none of them the combined file itself, are
  merged in sorted path order, the first line of the first and the lines after the first
  of each, into \<^verbatim>\<open>grading-summary-combined.csv\<close> under \<^verbatim>\<open><work_dir>/validation\<close>.\<close>

lemma combine_validations_merge:
  assumes "collect_validations its {} {} = Inr (csvs, pngs)"
  shows "csvs = report_paths its
       \<and> (card csvs = 1 \<longrightarrow>
            combine_validations C its w = (Inr (validation_summary pngs (the_elem csvs)), w))
       \<and> (1 < card csvs \<and> its = x # xs \<and> combined_path C x \<notin> csvs
            \<and> creatable C (path_join (dd_get_work_dir C x) [''validation''])
            \<and> map (files w) (sorted_list_of_set csvs) = map Some contents \<longrightarrow>
            combine_validations C its w =
              (Inr (validation_summary pngs (combined_path C x)),
               w\<lparr>files := (files w)(combined_path C x \<mapsto> merged_text contents),
                  calls := calls w @ [SafeMakedir (path_join (dd_get_work_dir C x) [''validation''])]\<rparr>))"
proof (intro conjI impI)
  from collect_validations_reports [OF assms] show "csvs = report_paths its" by simp
next
  assume "card csvs = 1"
  with assms show "combine_validations C its w = (Inr (validation_summary pngs (the_elem csvs)), w)"
    by (simp add: combine_validations_def)
next
  assume a: "1 < card csvs \<and> its = x # xs \<and> combined_path C x \<notin> csvs
            \<and> creatable C (path_join (dd_get_work_dir C x) [''validation''])
            \<and> map (files w) (sorted_list_of_set csvs) = map Some contents"
  then have fin: "finite csvs" by (metis card.infinite not_less_zero)
  with a have notin: "combined_path C x \<notin> set (sorted_list_of_set csvs)" by simp
  have "map ((files w)(combined_path C x \<mapsto> [])) (sorted_list_of_set csvs)
        = map (files w) (sorted_list_of_set csvs)"
    using notin by (intro map_cong) auto
  with a have rd: "map ((files w)(combined_path C x \<mapsto> [])) (sorted_list_of_set csvs)
        = map Some contents" by simp
  from merge_loop_present [OF rd, of 0 "[]"]
  have ml: "merge_loop ((files w)(combined_path C x \<mapsto> [])) 0 (sorted_list_of_set csvs) []
        = (None, merged_text contents)"
    by (simp add: merged_text_def)
  from a have ne: "card csvs \<noteq> 1" by simp
  from a have its: "its = x # xs" by simp
  show "combine_validations C its w =
              (Inr (validation_summary pngs (combined_path C x)),
               w\<lparr>files := (files w)(combined_path C x \<mapsto> merged_text contents),
                  calls := calls w @ [SafeMakedir (path_join (dd_get_work_dir C x) [''validation''])]\<rparr>)"
    using assms ne ml a
    by (simp add: combine_validations_def safe_makedir_def its Let_def log_call_def
        combined_path_def)
qed

lemma combine_validations_merge_example:
  "report_paths validated_records = {''/v/r1.csv'', ''/v/r2.csv''}
   \<and> map (\<lambda>p. map_option file_lines (report_files p)) [''/v/r1.csv'', ''/v/r2.csv'']
       = [Some [''h'' @ [newline], ''a'' @ [newline]], Some [''h'' @ [newline], ''b'' @ [newline]]]
   \<and> fst (combine_validations example_collab validated_records \<lparr>files = report_files, calls = []\<rparr>)
       = Inr [(''grading_plots'', VList []),
              (''grading_summary'', VStr ''/w/validation/grading-summary-combined.csv'')]
   \<and> map_option file_lines
         (files (snd (combine_validations example_collab validated_records
                        \<lparr>files = report_files, calls = []\<rparr>))
            ''/w/validation/grading-summary-combined.csv'')
       = Some [''h'' @ [newline], ''a'' @ [newline], ''b'' @ [newline]]"
  by code_simp

text \<open>
  C4. The claim asks that the header be written once and that all lines after the
  header of every report reach the combined file. The code does so unless one of the
  reports is the combined file itself: line 63 opens that file for writing, which
  empties it, before line 65 opens the reports for reading. Here the records carry the
  reports \<^verbatim>\<open>/v/r1.csv\<close> (lines \<^verbatim>\<open>h\<close>, \<^verbatim>\<open>a\<close>) and
  \<^verbatim>\<open>/w/validation/grading-summary-combined.csv\<close> (lines \<^verbatim>\<open>h\<close>, \<^verbatim>\<open>x\<close>); the call
  returns that path, and the file holds the lines \<^verbatim>\<open>h\<close> and \<^verbatim>\<open>a\<close> only.
\<close>

theorem combine_validations_loses_rewritten_report:
  "report_paths rerun_records = {''/v/r1.csv'', ''/w/validation/grading-summary-combined.csv''}
   \<and> map (\<lambda>p. map_option file_lines (rerun_files p))
         [''/v/r1.csv'', ''/w/validation/grading-summary-combined.csv'']
       = [Some [''h'' @ [newline], ''a'' @ [newline]], Some [''h'' @ [newline], ''x'' @ [newline]]]
   \<and> fst (combine_validations example_collab rerun_records \<lparr>files = rerun_files, calls = []\<rparr>)
       = Inr [(''grading_plots'', VList []),
              (''grading_summary'', VStr ''/w/validation/grading-summary-combined.csv'')]
   \<and> map_option file_lines
         (files (snd (combine_validations example_collab rerun_records
                        \<lparr>files = rerun_files, calls = []\<rparr>))
            ''/w/validation/grading-summary-combined.csv'')
       = Some [''h'' @ [newline], ''a'' @ [newline]]"
  by code_simp

section \<open>Claims on the transform pipeline\<close>


















text \<open>A record that needs no staging is the object its group holds: finalisation sees
  the statistics that annotation has just attached. A record that staging has copied
  is not: finalisation sees the group's record without them.\<close>

lemma group_shares_unstaged_record:
  "map (\<lambda>r. py_get r ''vrn_file'')
     (concat (projr (fst (postprocess_variants probe_collab (Single staged_record) staged_world))))
     = [VStr ''stats'']
   \<and> fst (run_pipeline probe_collab (Single example_record) input_world)
     = Inr (''vrn_file'', VStr ''/in/x.vcf'',
            AList.update ''vrn_stats'' (VStr ''stats'')
              (AList.update ''vrn_file'' VNone staged_record))"
  by code_simp

lemma germline_extraction_examples:
  "calls (snd (postprocess_variants example_collab (Single example_record) input_world))
     = [SafeMakedir ''/w/gatk'', SymlinkPlus ''/in/x.vcf'' ''/w/gatk/x.vcf'',
        AddToVcf (VStr ''/w/gatk/x.vcf''), FinalizeVcf (VStr ''/w/gatk/x.vcf''),
        VariantFiltration (VStr ''/w/gatk/x.vcf''),
        HandleVcfCalls (VStr ''/w/gatk/x.vcf'') (VStr ''/w/gatk/x.vcf'')]
   \<and> calls (snd (postprocess_variants example_collab
        (Single (example_record @ [(''prioritize'', VStr ''yes'')])) input_world))
     = [SafeMakedir ''/w/gatk'', SymlinkPlus ''/in/x.vcf'' ''/w/gatk/x.vcf'',
        AddToVcf (VStr ''/w/gatk/x.vcf''), FinalizeVcf (VStr ''/w/gatk/x.vcf''),
        VariantFiltration (VStr ''/w/gatk/x.vcf''),
        HandleVcfCalls (VStr ''/w/gatk/x.vcf'') (VStr ''/w/gatk/x.vcf.prio''),
        GermlineExtract]"
  by code_simp

lemma run_pipeline_orig:
  assumes "run_pipeline C its w = (Inr (k, orig, d), w')"
  shows "\<exists>d0 its0. prepare C its = Inr (k, d0, its0) \<and> py_get d0 k = orig"
  using assms
  by (auto simp: run_pipeline_def Let_def split: sum.splits prod.splits)

text \<open>
  C5. When the record that enters the pipeline carries a call-file path (the
  \<^verbatim>\<open>orig_vrn_file\<close> of line 88) and the call file held after all stages is the same
  underlying file as that path, \<^verbatim>\<open>postprocess_variants\<close> returns the one record with
  its call-file field set to that original path.
\<close>

theorem postprocess_variants_restores_original:
  assumes "run_pipeline C its w = (Inr (k, VStr q, d), w')"
    and "q \<noteq> []"
    and "map_of d k = Some (VStr p)"
    and "samefile C p q = Some True"
  shows "postprocess_variants C its w = (Inr [[AList.update k (VStr q) d]], w')
       \<and> map_of (AList.update k (VStr q) d) k = Some (VStr q)
       \<and> (\<exists>d0 its0. prepare C its = Inr (k, d0, its0) \<and> py_get d0 k = VStr q)"
proof -
  from assms have "postprocess_variants C its w = (Inr [[AList.update k (VStr q) d]], w')"
    by (simp add: postprocess_variants_def restore_def item_def)
  moreover have "map_of (AList.update k (VStr q) d) k = Some (VStr q)"
    by (simp add: update_conv')
  ultimately show ?thesis using run_pipeline_orig [OF assms(1)] by simp
qed

theorem postprocess_variants_restores_original_witness:
  "map_of example_record ''vrn_file'' = Some (VStr ''/in/x.vcf'')
   \<and> fst (run_pipeline example_collab (Single example_record) input_world)
       = Inr (''vrn_file'', VStr ''/in/x.vcf'', staged_record)
   \<and> map_of staged_record ''vrn_file'' = Some (VStr ''/w/gatk/x.vcf'')
   \<and> samefile example_collab ''/w/gatk/x.vcf'' ''/in/x.vcf'' = Some True
   \<and> postprocess_variants example_collab (Single example_record) input_world
       = (Inr [[example_record]],
          snd (run_pipeline example_collab (Single example_record) input_world))"
proof -
  have rec: "map_of example_record ''vrn_file'' = Some (VStr ''/in/x.vcf'')"
    by (simp add: example_record_def)
  have frun: "fst (run_pipeline example_collab (Single example_record) input_world)
       = Inr (''vrn_file'', VStr ''/in/x.vcf'', staged_record)"
    by code_simp
  then have run: "run_pipeline example_collab (Single example_record) input_world
       = (Inr (''vrn_file'', VStr ''/in/x.vcf'', staged_record),
          snd (run_pipeline example_collab (Single example_record) input_world))"
    by (metis prod.collapse)
  have ne: "''/in/x.vcf'' \<noteq> []" by simp
  have cur: "map_of staged_record ''vrn_file'' = Some (VStr ''/w/gatk/x.vcf'')"
    by (simp add: staged_record_def example_record_def)
  have same: "samefile example_collab ''/w/gatk/x.vcf'' ''/in/x.vcf'' = Some True"
    by code_simp
  have restored: "AList.update ''vrn_file'' (VStr ''/in/x.vcf'') staged_record = example_record"
    by (simp add: staged_record_def example_record_def)
  from postprocess_variants_restores_original [OF run ne cur same] rec frun cur same restored
  show ?thesis by simp
qed

end
